theory Spec2Isabelle
  imports Main
begin

section \<open>Values, exceptions and the environment\<close>

text \<open>
  The program \<^verbatim>\<open>update_chromedriver.py\<close> reads a JSON manifest over HTTP, scans it for
  a driver download, fetches a zip archive, unpacks it and walks the unpacked directory.
  Strings and byte strings are lists of characters (a Python string is read as its UTF-8
  bytes: \<^verbatim>\<open>startswith\<close> and the substring test \<^verbatim>\<open>in\<close> agree on code points and on
  their UTF-8 encodings).
\<close>

type_synonym bytes = string

text \<open>
  The value \<^verbatim>\<open>response.json()\<close> returns: a Python object built from \<^verbatim>\<open>None\<close>, booleans,
  numbers, strings, lists and dicts. A dict is an association list with distinct keys, in
  insertion order; a number is an integer (a float behaves the same under every operation
  the program applies: it is not subscriptable, not iterable, and true iff nonzero).
\<close>

datatype json =
    JNull
  | JBool bool
  | JNum int
  | JStr string
  | JArr "json list"
  | JObj "(string \<times> json) list"

text \<open>
  The exceptions the program can meet, all of them subclasses of \<^verbatim>\<open>Exception\<close>. The first
  four are subclasses of \<^verbatim>\<open>requests.RequestException\<close> (a body that is not JSON raises
  \<^verbatim>\<open>requests.exceptions.JSONDecodeError\<close>, here \<open>InvalidJSONError\<close>). \<open>RuntimeError\<close>
  carries the operating system name of line 44, \<open>KeyError\<close> the missing key.
  Asynchronous interrupts (\<^verbatim>\<open>KeyboardInterrupt\<close>) are outside the model.
\<close>

datatype exn =
    HTTPError
  | ConnectionError
  | Timeout
  | InvalidJSONError
  | BadZipFile
  | RuntimeError string
  | KeyError string
  | TypeError
  | AttributeError
  | OSError

fun is_RequestException :: "exn \<Rightarrow> bool" where
  "is_RequestException HTTPError = True"
| "is_RequestException ConnectionError = True"
| "is_RequestException Timeout = True"
| "is_RequestException InvalidJSONError = True"
| "is_RequestException _ = False"

fun is_BadZipFile :: "exn \<Rightarrow> bool" where
  "is_BadZipFile BadZipFile = True"
| "is_BadZipFile _ = False"

text \<open>
  A \<^verbatim>\<open>requests.Response\<close>: the status code, the body bytes (\<^verbatim>\<open>response.content\<close>) and
  what \<^verbatim>\<open>response.json()\<close> gives on that body (the parsed value, or the exception of a
  body that is not JSON).
\<close>

record response =
  status_code :: nat
  content :: bytes
  json_result :: "exn + json"

text \<open>
  \<^verbatim>\<open>response.raise_for_status()\<close> raises \<^verbatim>\<open>HTTPError\<close> for a client error (400 to 499)
  or a server error (500 to 599) and returns otherwise.
\<close>

definition raise_for_status :: "response \<Rightarrow> exn + unit" where
  "raise_for_status r =
     (if 400 \<le> status_code r \<and> status_code r < 600 then Inl HTTPError else Inr ())"

text \<open>
  A directory tree: a regular file with its bytes, or a directory with its entries in the
  order the operating system lists them (\<^verbatim>\<open>os.scandir\<close>).
\<close>

datatype node = File bytes | Dir "(string \<times> node) list"

text \<open>
  A member of a zip archive: the directories leading to it, its file name and its bytes.
\<close>

type_synonym member = "string list \<times> string \<times> bytes"

text \<open>
  One line written by \<^verbatim>\<open>print\<close>. The source prints Chinese text; each constructor is one
  \<^verbatim>\<open>print\<close> call with the values its f-string interpolates:
  \<^item> \<open>MsgPlatform\<close> line 55 (platform name);
  \<^item> \<open>MsgFound\<close> line 61 (matching download link found);
  \<^item> \<open>MsgNoMatch\<close> line 63 (no matching ChromeDriver found);
  \<^item> \<open>MsgRequestError\<close> line 65 (request error);
  \<^item> \<open>MsgError\<close> lines 67 and 114 (an error occurred);
  \<^item> \<open>MsgNoSuitable\<close> line 74 (no ChromeDriver for the version prefix);
  \<^item> \<open>MsgDownloading\<close> line 81, \<open>MsgDownloaded\<close> line 87, \<open>MsgExtracting\<close> line 89;
  \<^item> \<open>MsgDriverPath\<close> line 104 (path of the driver file);
  \<^item> \<open>MsgDriverNotFound\<close> line 107 (no chromedriver file after extraction);
  \<^item> \<open>MsgDownloadError\<close> line 110, \<open>MsgBadZip\<close> line 112.
\<close>

datatype msg =
    MsgPlatform string
  | MsgFound json
  | MsgNoMatch
  | MsgRequestError exn
  | MsgError exn
  | MsgNoSuitable string
  | MsgDownloading string
  | MsgDownloaded string
  | MsgExtracting string
  | MsgDriverPath string
  | MsgDriverNotFound
  | MsgDownloadError exn
  | MsgBadZip

text \<open>
  Everything outside the program that it reads or changes:
  \<^item> \<open>platform_system\<close>: what \<^verbatim>\<open>platform.system()\<close> returns;
  \<^item> \<open>script_dir\<close>: what \<^verbatim>\<open>os.path.dirname(os.path.abspath(__file__))\<close> returns;
  \<^item> \<open>os_path_join\<close>: the function \<^verbatim>\<open>os.path.join\<close> of the host's path module, on two
    arguments (\<^verbatim>\<open>posixpath.join\<close>, and \<^verbatim>\<open>ntpath.join\<close> on Windows);
  \<^item> \<open>requests_get\<close>: the outcome of \<^verbatim>\<open>requests.get(url)\<close>, a response or the exception
    of a failed connection (the URL is a Python value: the manifest supplies it);
  \<^item> \<open>unzip\<close>: the members of an archive given its bytes, or the exception of
    \<^verbatim>\<open>zipfile.ZipFile\<close> on bytes that are no archive;
  \<^item> \<open>files\<close>: the regular files the program opens by path;
  \<^item> \<open>trees\<close>: the directory trees the program extracts into and walks, by path;
  \<^item> \<open>printed\<close>: the lines printed so far, oldest first.
  A path is its string: two different strings name two different objects (no symbolic
  links, no \<^verbatim>\<open>..\<close> normalisation).
\<close>

record world =
  platform_system :: string
  script_dir :: string
  os_path_join :: "string \<Rightarrow> string \<Rightarrow> string"
  requests_get :: "json \<Rightarrow> exn + response"
  unzip :: "bytes \<Rightarrow> exn + member list"
  files :: "string \<rightharpoonup> bytes"
  trees :: "string \<rightharpoonup> (string \<times> node) list"
  printed :: "msg list"

definition print_msg :: "msg \<Rightarrow> world \<Rightarrow> world" where
  "print_msg m w = w\<lparr>printed := printed w @ [m]\<rparr>"

section \<open>Python operations on strings and JSON values\<close>

text \<open>\<^verbatim>\<open>s.startswith(p)\<close>: the characters of \<open>p\<close> are the first characters of \<open>s\<close>.\<close>

fun startswith :: "string \<Rightarrow> string \<Rightarrow> bool" where
  "startswith s [] = True"
| "startswith [] (c # p) = False"
| "startswith (x # s) (c # p) = (x = c \<and> startswith s p)"

text \<open>\<^verbatim>\<open>n in s\<close> on two strings: \<open>n\<close> occurs in \<open>s\<close> as a contiguous run.\<close>

fun str_contains :: "string \<Rightarrow> string \<Rightarrow> bool" where
  "str_contains n [] = (n = [])"
| "str_contains n (x # s) = (startswith (x # s) n \<or> str_contains n s)"

text \<open>
  \<^verbatim>\<open>obj[key]\<close> with a string key: a dict gives the value or \<^verbatim>\<open>KeyError\<close>; a list, a string
  and every other value raise \<^verbatim>\<open>TypeError\<close>.
\<close>

fun py_getitem :: "json \<Rightarrow> string \<Rightarrow> exn + json" where
  "py_getitem (JObj kvs) k = (case map_of kvs k of None \<Rightarrow> Inl (KeyError k) | Some v \<Rightarrow> Inr v)"
| "py_getitem _ k = Inl TypeError"

text \<open>
  \<^verbatim>\<open>for x in obj\<close>: a list gives its elements, a dict its keys, a string its characters as
  one-character strings; \<^verbatim>\<open>None\<close>, booleans and numbers raise \<^verbatim>\<open>TypeError\<close>.
\<close>

fun py_iter :: "json \<Rightarrow> exn + json list" where
  "py_iter (JArr xs) = Inr xs"
| "py_iter (JObj kvs) = Inr (map (\<lambda>kv. JStr (fst kv)) kvs)"
| "py_iter (JStr s) = Inr (map (\<lambda>c. JStr [c]) s)"
| "py_iter _ = Inl TypeError"

text \<open>
  \<^verbatim>\<open>name in obj\<close> for a string \<open>name\<close>: the substring test on a string, membership in a
  list, key membership in a dict; \<^verbatim>\<open>TypeError\<close> on \<^verbatim>\<open>None\<close>, booleans and numbers.
\<close>

fun py_contains :: "string \<Rightarrow> json \<Rightarrow> exn + bool" where
  "py_contains n (JStr s) = Inr (str_contains n s)"
| "py_contains n (JArr xs) = Inr (JStr n \<in> set xs)"
| "py_contains n (JObj kvs) = Inr (n \<in> fst ` set kvs)"
| "py_contains n _ = Inl TypeError"

text \<open>Truth value of a Python object, as \<^verbatim>\<open>if not driver_url\<close> reads it.\<close>

fun py_truthy :: "json \<Rightarrow> bool" where
  "py_truthy JNull = False"
| "py_truthy (JBool b) = b"
| "py_truthy (JNum n) = (n \<noteq> 0)"
| "py_truthy (JStr s) = (s \<noteq> [])"
| "py_truthy (JArr xs) = (xs \<noteq> [])"
| "py_truthy (JObj kvs) = (kvs \<noteq> [])"

text \<open>
  \<^verbatim>\<open>posixpath.join(a, b)\<close>, the \<^verbatim>\<open>os.path.join\<close> of every host but Windows: an absolute
  \<open>b\<close> replaces \<open>a\<close>; a separator is put between them unless \<open>a\<close> is empty or ends
  with one.
\<close>

definition posixpath_join :: "string \<Rightarrow> string \<Rightarrow> string" where
  "posixpath_join a b =
     (if startswith b ''/'' then b
      else if a = [] \<or> last a = CHR ''/'' then a @ b
      else a @ ''/'' @ b)"

section \<open>Platform resolution\<close>

text \<open>
  \<^verbatim>\<open>get_platform_name\<close>, lines 34 to 44, as a function of the value of
  \<^verbatim>\<open>platform.system()\<close>.
\<close>

definition get_platform_name :: "string \<Rightarrow> exn + string" where
  "get_platform_name system =
     (if system = ''Windows'' then Inr ''win32''
      else if system = ''Darwin'' then Inr ''mac-arm64''
      else if system = ''Linux'' then Inr ''linux64''
      else Inl (RuntimeError system))"

section \<open>Manifest lookup\<close>

definition json_url :: string where
  "json_url = ''https://googlechromelabs.github.io/chrome-for-testing/known-good-versions-with-downloads.json''"

text \<open>
  The inner loop, lines 59 to 62, over the elements of
  \<^verbatim>\<open>version_info['downloads']['chromedriver']\<close>: the URL of the first download whose
  \<^verbatim>\<open>'platform'\<close> contains the platform name, \<open>None\<close> when the loop ends without one,
  an exception when an element cannot be read.
\<close>

fun scan_downloads :: "string \<Rightarrow> json list \<Rightarrow> exn + json option" where
  "scan_downloads platform_name [] = Inr None"
| "scan_downloads platform_name (download # rest) =
     (case py_getitem download ''platform'' of
        Inl e \<Rightarrow> Inl e
      | Inr pf \<Rightarrow>
          (case py_contains platform_name pf of
             Inl e \<Rightarrow> Inl e
           | Inr True \<Rightarrow>
               (case py_getitem download ''url'' of
                  Inl e \<Rightarrow> Inl e
                | Inr u \<Rightarrow> Inr (Some u))
           | Inr False \<Rightarrow> scan_downloads platform_name rest))"

text \<open>
  The outer loop, lines 57 to 62. Only a string has \<^verbatim>\<open>startswith\<close>: on any other
  \<^verbatim>\<open>'version'\<close> the call raises \<^verbatim>\<open>AttributeError\<close>. The result is the pair the source
  returns, the URL and the version string.
\<close>

fun scan_versions :: "string \<Rightarrow> string \<Rightarrow> json list \<Rightarrow> exn + (json \<times> string) option" where
  "scan_versions platform_name chrome_version_prefix [] = Inr None"
| "scan_versions platform_name chrome_version_prefix (version_info # rest) =
     (case py_getitem version_info ''version'' of
        Inl e \<Rightarrow> Inl e
      | Inr (JStr v) \<Rightarrow>
          (if startswith v chrome_version_prefix then
             (case py_getitem version_info ''downloads'' of
                Inl e \<Rightarrow> Inl e
              | Inr dl \<Rightarrow>
                  (case py_getitem dl ''chromedriver'' of
                     Inl e \<Rightarrow> Inl e
                   | Inr cd \<Rightarrow>
                       (case py_iter cd of
                          Inl e \<Rightarrow> Inl e
                        | Inr ds \<Rightarrow>
                            (case scan_downloads platform_name ds of
                               Inl e \<Rightarrow> Inl e
                             | Inr (Some u) \<Rightarrow> Inr (Some (u, v))
                             | Inr None \<Rightarrow>
                                 scan_versions platform_name chrome_version_prefix rest))))
           else scan_versions platform_name chrome_version_prefix rest)
      | Inr _ \<Rightarrow> Inl AttributeError)"

text \<open>
  The body of the \<^verbatim>\<open>try\<close> of \<^verbatim>\<open>fetch_closest_chromedriver_url\<close>, lines 50 to 63:
  \<open>Inl\<close> is an exception raised inside it, \<open>Inr (Some r)\<close> the \<^verbatim>\<open>return\<close> of line 62,
  \<open>Inr None\<close> the end of the body after line 63.
\<close>

definition fetch_try_body ::
  "string \<Rightarrow> world \<Rightarrow> (exn + (json \<times> string) option) \<times> world" where
  "fetch_try_body chrome_version_prefix w =
     (case requests_get w (JStr json_url) of
        Inl e \<Rightarrow> (Inl e, w)
      | Inr response \<Rightarrow>
          (case raise_for_status response of
             Inl e \<Rightarrow> (Inl e, w)
           | Inr _ \<Rightarrow>
               (case json_result response of
                  Inl e \<Rightarrow> (Inl e, w)
                | Inr data \<Rightarrow>
                    (case get_platform_name (platform_system w) of
                       Inl e \<Rightarrow> (Inl e, w)
                     | Inr platform_name \<Rightarrow>
                         (let w1 = print_msg (MsgPlatform platform_name) w in
                          case py_getitem data ''versions'' of
                            Inl e \<Rightarrow> (Inl e, w1)
                          | Inr versions \<Rightarrow>
                              (case py_iter versions of
                                 Inl e \<Rightarrow> (Inl e, w1)
                               | Inr vis \<Rightarrow>
                                   (case scan_versions platform_name chrome_version_prefix vis of
                                      Inl e \<Rightarrow> (Inl e, w1)
                                    | Inr (Some (u, v)) \<Rightarrow>
                                        (Inr (Some (u, v)), print_msg (MsgFound u) w1)
                                    | Inr None \<Rightarrow>
                                        (Inr None, print_msg MsgNoMatch w1))))))))"

text \<open>
  \<^verbatim>\<open>fetch_closest_chromedriver_url\<close>, lines 46 to 68. The two handlers of lines 64 to 67
  print and fall through to \<^verbatim>\<open>return None, None\<close>, the result \<open>None\<close> here. The result
  is a sum so that an exception leaving the function would show as \<open>Inl\<close>.
\<close>

definition fetch_closest_chromedriver_url ::
  "string \<Rightarrow> world \<Rightarrow> (exn + (json \<times> string) option) \<times> world" where
  "fetch_closest_chromedriver_url chrome_version_prefix w =
     (case fetch_try_body chrome_version_prefix w of
        (Inl e, w') \<Rightarrow>
          (if is_RequestException e then (Inr None, print_msg (MsgRequestError e) w')
           else (Inr None, print_msg (MsgError e) w'))
      | (Inr (Some r), w') \<Rightarrow> (Inr (Some r), w')
      | (Inr None, w') \<Rightarrow> (Inr None, w'))"

section \<open>Files, archives and the directory walk\<close>

text \<open>\<^verbatim>\<open>open(path, 'wb')\<close> and \<^verbatim>\<open>f.write(data)\<close>: the file holds \<open>data\<close> afterwards.\<close>

definition open_write :: "string \<Rightarrow> bytes \<Rightarrow> world \<Rightarrow> (exn + unit) \<times> world" where
  "open_write path data w = (Inr (), w\<lparr>files := (files w)(path \<mapsto> data)\<rparr>)"

text \<open>\<^verbatim>\<open>os.remove(path)\<close>: the file is gone afterwards; a missing file raises.\<close>

definition os_remove :: "string \<Rightarrow> world \<Rightarrow> (exn + unit) \<times> world" where
  "os_remove path w =
     (case files w path of
        None \<Rightarrow> (Inl OSError, w)
      | Some _ \<Rightarrow> (Inr (), w\<lparr>files := (files w)(path := None)\<rparr>))"

text \<open>Replacing the node of an entry that exists, at its place in the listing.\<close>

fun replace_entry :: "string \<Rightarrow> node \<Rightarrow> (string \<times> node) list \<Rightarrow> (string \<times> node) list" where
  "replace_entry name nd [] = []"
| "replace_entry name nd ((k, x) # es) =
     (if k = name then (k, nd) # es else (k, x) # replace_entry name nd es)"

text \<open>
  Extracting one archive member into a directory: the directories on the way are created
  when missing, an existing file of the same name is overwritten, a new name is listed
  last. A file where a directory is needed, or a directory where the file goes, raises
  \<^verbatim>\<open>OSError\<close>.
\<close>

fun insert_file ::
  "string list \<Rightarrow> string \<Rightarrow> bytes \<Rightarrow> (string \<times> node) list \<Rightarrow> exn + (string \<times> node) list" where
  "insert_file [] name data es =
     (case map_of es name of
        None \<Rightarrow> Inr (es @ [(name, File data)])
      | Some (File _) \<Rightarrow> Inr (replace_entry name (File data) es)
      | Some (Dir _) \<Rightarrow> Inl OSError)"
| "insert_file (d # ds) name data es =
     (case map_of es d of
        None \<Rightarrow>
          (case insert_file ds name data [] of
             Inl e \<Rightarrow> Inl e
           | Inr sub \<Rightarrow> Inr (es @ [(d, Dir sub)]))
      | Some (Dir sub0) \<Rightarrow>
          (case insert_file ds name data sub0 of
             Inl e \<Rightarrow> Inl e
           | Inr sub \<Rightarrow> Inr (replace_entry d (Dir sub) es))
      | Some (File _) \<Rightarrow> Inl OSError)"

text \<open>
  \<^verbatim>\<open>ZipFile.extractall\<close> on the members in archive order, into a directory that may not
  exist yet (\<open>None\<close>). The members extracted before a failing one stay.
\<close>

fun extract_members ::
  "member list \<Rightarrow> (string \<times> node) list option \<Rightarrow> (exn + unit) \<times> (string \<times> node) list option" where
  "extract_members [] t = (Inr (), t)"
| "extract_members ((ds, name, data) # ms) t =
     (case insert_file ds name data (case t of None \<Rightarrow> [] | Some es \<Rightarrow> es) of
        Inl e \<Rightarrow> (Inl e, t)
      | Inr es' \<Rightarrow> extract_members ms (Some es'))"

text \<open>
  Lines 90 and 91: \<^verbatim>\<open>zipfile.ZipFile(zip_path, 'r')\<close> opens and decodes the file, then
  \<^verbatim>\<open>extractall(extract_dir)\<close>.
\<close>

definition zip_extractall :: "string \<Rightarrow> string \<Rightarrow> world \<Rightarrow> (exn + unit) \<times> world" where
  "zip_extractall zip_path extract_dir w =
     (case files w zip_path of
        None \<Rightarrow> (Inl OSError, w)
      | Some data \<Rightarrow>
          (case unzip w data of
             Inl e \<Rightarrow> (Inl e, w)
           | Inr ms \<Rightarrow>
               (case extract_members ms (trees w extract_dir) of
                  (r, t) \<Rightarrow> (r, w\<lparr>trees := (trees w)(extract_dir := t)\<rparr>))))"

text \<open>The names of the directories and of the other entries of a listing, in its order.\<close>

fun dir_names :: "(string \<times> node) list \<Rightarrow> string list" where
  "dir_names [] = []"
| "dir_names ((n, Dir _) # es) = n # dir_names es"
| "dir_names ((n, File _) # es) = dir_names es"

fun file_names :: "(string \<times> node) list \<Rightarrow> string list" where
  "file_names [] = []"
| "file_names ((n, File _) # es) = n # file_names es"
| "file_names ((n, Dir _) # es) = file_names es"

text \<open>
  \<^verbatim>\<open>os.walk(dirpath)\<close>, top-down: the triple of a directory first, then the walks of its
  subdirectories in listing order, each under the path \<^verbatim>\<open>join(dirpath, name)\<close>. The
  first argument is the \<^verbatim>\<open>os.path.join\<close> of the host.
\<close>

fun walk ::
    "(string \<Rightarrow> string \<Rightarrow> string) \<Rightarrow> string \<Rightarrow> (string \<times> node) list \<Rightarrow>
       (string \<times> string list \<times> string list) list"
  and walk_subdirs ::
    "(string \<Rightarrow> string \<Rightarrow> string) \<Rightarrow> string \<Rightarrow> (string \<times> node) list \<Rightarrow>
       (string \<times> string list \<times> string list) list" where
  "walk join dirpath es = (dirpath, dir_names es, file_names es) # walk_subdirs join dirpath es"
| "walk_subdirs join dirpath [] = []"
| "walk_subdirs join dirpath ((n, File _) # es) = walk_subdirs join dirpath es"
| "walk_subdirs join dirpath ((n, Dir sub) # es) =
     walk join (join dirpath n) sub @ walk_subdirs join dirpath es"

text \<open>\<^verbatim>\<open>os.walk\<close> on a path that is no directory yields nothing.\<close>

definition os_walk :: "string \<Rightarrow> world \<Rightarrow> (string \<times> string list \<times> string list) list" where
  "os_walk dirpath w =
     (case trees w dirpath of None \<Rightarrow> [] | Some es \<Rightarrow> walk (os_path_join w) dirpath es)"

text \<open>
  The loops of lines 93 to 100 on the variable \<^verbatim>\<open>driver_file\<close>, \<open>None\<close> at first. The
  inner loop stops at the first file name that starts with \<^verbatim>\<open>chromedriver\<close>; the outer
  loop stops once \<^verbatim>\<open>driver_file\<close> is true (neither \<^verbatim>\<open>None\<close> nor the empty string).
  The first argument is the \<^verbatim>\<open>os.path.join\<close> of line 97.
\<close>

fun scan_files ::
  "(string \<Rightarrow> string \<Rightarrow> string) \<Rightarrow> string \<Rightarrow> string list \<Rightarrow> string option \<Rightarrow> string option" where
  "scan_files join root [] driver_file = driver_file"
| "scan_files join root (file # rest) driver_file =
     (if startswith file ''chromedriver'' then Some (join root file)
      else scan_files join root rest driver_file)"

fun str_truthy :: "string option \<Rightarrow> bool" where
  "str_truthy None = False"
| "str_truthy (Some s) = (s \<noteq> [])"

text \<open>The string a variable holds once it is known to be true.\<close>

fun the_path :: "string option \<Rightarrow> string" where
  "the_path None = []"
| "the_path (Some s) = s"

fun scan_walk ::
  "(string \<Rightarrow> string \<Rightarrow> string) \<Rightarrow> (string \<times> string list \<times> string list) list \<Rightarrow>
     string option \<Rightarrow> string option" where
  "scan_walk join [] driver_file = driver_file"
| "scan_walk join ((root, dirs, fs) # rest) driver_file =
     (let driver_file' = scan_files join root fs driver_file in
      if str_truthy driver_file' then driver_file' else scan_walk join rest driver_file')"

section \<open>Download and update\<close>

text \<open>
  The body of the \<^verbatim>\<open>try\<close> of \<^verbatim>\<open>download_and_update_chromedriver\<close>, lines 83 to 108:
  \<open>Inl\<close> is an exception raised inside it, \<open>Inr s\<close> the string one of its two \<^verbatim>\<open>return\<close>
  statements gives.
\<close>

definition download_try_body ::
  "json \<Rightarrow> string \<Rightarrow> string \<Rightarrow> string \<Rightarrow> world \<Rightarrow> (exn + string) \<times> world" where
  "download_try_body driver_url actual_version zip_path extract_dir w =
     (case requests_get w driver_url of
        Inl e \<Rightarrow> (Inl e, w)
      | Inr response \<Rightarrow>
          (case raise_for_status response of
             Inl e \<Rightarrow> (Inl e, w)
           | Inr _ \<Rightarrow>
               (case open_write zip_path (content response) w of
                  (Inl e, w1) \<Rightarrow> (Inl e, w1)
                | (Inr _, w1) \<Rightarrow>
                    (let w2 = print_msg (MsgDownloaded actual_version) w1;
                         w3 = print_msg (MsgExtracting actual_version) w2
                     in case zip_extractall zip_path extract_dir w3 of
                          (Inl e, w4) \<Rightarrow> (Inl e, w4)
                        | (Inr _, w4) \<Rightarrow>
                            (let driver_file =
                                   scan_walk (os_path_join w4) (os_walk extract_dir w4) None in
                             if str_truthy driver_file then
                               (case os_remove zip_path w4 of
                                  (Inl e, w5) \<Rightarrow> (Inl e, w5)
                                | (Inr _, w5) \<Rightarrow>
                                    (Inr (the_path driver_file),
                                     print_msg (MsgDriverPath (the_path driver_file)) w5))
                             else (Inr [], print_msg MsgDriverNotFound w4))))))"

text \<open>
  \<^verbatim>\<open>download_and_update_chromedriver\<close>, lines 70 to 115. The call of line 72 is outside
  every \<^verbatim>\<open>try\<close>: an exception of the lookup would leave this function too. The handlers
  of lines 109 to 114 print and fall through to \<^verbatim>\<open>return ''\<close>.
\<close>

definition download_and_update_chromedriver :: "string \<Rightarrow> world \<Rightarrow> (exn + string) \<times> world" where
  "download_and_update_chromedriver version_prefix w =
     (case fetch_closest_chromedriver_url version_prefix w of
        (Inl e, w0) \<Rightarrow> (Inl e, w0)
      | (Inr None, w0) \<Rightarrow> (Inr [], print_msg (MsgNoSuitable version_prefix) w0)
      | (Inr (Some (driver_url, actual_version)), w0) \<Rightarrow>
          (if \<not> py_truthy driver_url then
             (Inr [], print_msg (MsgNoSuitable version_prefix) w0)
           else
             (let base_path = script_dir w0;
                  zip_path =
                    os_path_join w0 base_path (''chromedriver_'' @ actual_version @ ''.zip'');
                  extract_dir = os_path_join w0 base_path (''chromedriver_'' @ actual_version);
                  w1 = print_msg (MsgDownloading actual_version) w0
              in case download_try_body driver_url actual_version zip_path extract_dir w1 of
                   (Inr s, w2) \<Rightarrow> (Inr s, w2)
                 | (Inl e, w2) \<Rightarrow>
                     (if is_RequestException e then (Inr [], print_msg (MsgDownloadError e) w2)
                      else if is_BadZipFile e then (Inr [], print_msg MsgBadZip w2)
                      else (Inr [], print_msg (MsgError e) w2)))))"

text \<open>The two paths of lines 78 and 79 for the version \<open>v\<close>.\<close>

definition zip_path_of :: "world \<Rightarrow> string \<Rightarrow> string" where
  "zip_path_of w v = os_path_join w (script_dir w) (''chromedriver_'' @ v @ ''.zip'')"

definition extract_dir_of :: "world \<Rightarrow> string \<Rightarrow> string" where
  "extract_dir_of w v = os_path_join w (script_dir w) (''chromedriver_'' @ v)"

section \<open>The lookup as the specification words it\<close>

text \<open>
  The reading of a manifest entry that the specification uses: its version string, its
  chromedriver downloads (none when the entry has no such list), and whether a download
  is for a platform tag (its platform string contains the tag).
\<close>

definition entry_version :: "json \<Rightarrow> string option" where
  "entry_version e = (case py_getitem e ''version'' of Inr (JStr v) \<Rightarrow> Some v | _ \<Rightarrow> None)"

definition chromedriver_downloads :: "json \<Rightarrow> json list" where
  "chromedriver_downloads e =
     (case py_getitem e ''downloads'' of
        Inr dl \<Rightarrow> (case py_getitem dl ''chromedriver'' of Inr (JArr ds) \<Rightarrow> ds | _ \<Rightarrow> [])
      | _ \<Rightarrow> [])"

definition offers :: "string \<Rightarrow> json \<Rightarrow> bool" where
  "offers tag d = (case py_getitem d ''platform'' of Inr (JStr s) \<Rightarrow> str_contains tag s | _ \<Rightarrow> False)"

definition download_url :: "json \<Rightarrow> json option" where
  "download_url d = (case py_getitem d ''url'' of Inr u \<Rightarrow> Some u | Inl _ \<Rightarrow> None)"

text \<open>
  An entry matches when its version starts with the prefix and one of its chromedriver
  downloads is for the tag.
\<close>

definition entry_matches :: "string \<Rightarrow> string \<Rightarrow> json \<Rightarrow> bool" where
  "entry_matches tag p e =
     (case entry_version e of
        None \<Rightarrow> False
      | Some v \<Rightarrow> startswith v p \<and> list_ex (offers tag) (chromedriver_downloads e))"

text \<open>
  The first matching entry in manifest order, as the URL of its first download for the
  tag and its version; \<open>None\<close> when no entry matches.
\<close>

definition first_match :: "string \<Rightarrow> string \<Rightarrow> json list \<Rightarrow> (json \<times> string) option" where
  "first_match tag p es =
     (case find (entry_matches tag p) es of
        None \<Rightarrow> None
      | Some e \<Rightarrow>
          (case (find (offers tag) (chromedriver_downloads e), entry_version e) of
             (Some d, Some v) \<Rightarrow> map_option (\<lambda>u. (u, v)) (download_url d)
           | _ \<Rightarrow> None))"

text \<open>
  The shape of the manifest the program reads without an exception: a download has a
  platform string and a URL; an entry has a version string and, when that version starts
  with the prefix, a list of such downloads under \<^verbatim>\<open>['downloads']['chromedriver']\<close>.
\<close>

definition download_shape :: "json \<Rightarrow> bool" where
  "download_shape d =
     (case py_getitem d ''platform'' of
        Inr (JStr _) \<Rightarrow> (case py_getitem d ''url'' of Inr _ \<Rightarrow> True | Inl _ \<Rightarrow> False)
      | _ \<Rightarrow> False)"

definition entry_shape :: "string \<Rightarrow> json \<Rightarrow> bool" where
  "entry_shape p e =
     (case py_getitem e ''version'' of
        Inr (JStr v) \<Rightarrow>
          (startswith v p \<longrightarrow>
             (case py_getitem e ''downloads'' of
                Inr dl \<Rightarrow>
                  (case py_getitem dl ''chromedriver'' of
                     Inr (JArr ds) \<Rightarrow> list_all download_shape ds
                   | _ \<Rightarrow> False)
              | _ \<Rightarrow> False))
      | _ \<Rightarrow> False)"

text \<open>
  The files of a walk in the order the loops of lines 94 to 100 meet them, each with the
  directory the walk reports it in.
\<close>

fun walk_files :: "(string \<times> string list \<times> string list) list \<Rightarrow> (string \<times> string) list" where
  "walk_files [] = []"
| "walk_files ((root, dirs, fs) # rest) = map (\<lambda>f. (root, f)) fs @ walk_files rest"

text \<open>The subdirectories of a listing, in its order.\<close>

fun subdirs :: "(string \<times> node) list \<Rightarrow> (string \<times> (string \<times> node) list) list" where
  "subdirs [] = []"
| "subdirs ((n, File _) # es) = subdirs es"
| "subdirs ((n, Dir sub) # es) = (n, sub) # subdirs es"

text \<open>
  The files of a directory tree in the order of a depth-first walk from the top, as the
  specification has it: the files of the directory itself in listing order, then, for
  each subdirectory in listing order, the files of that subdirectory in the same way.
  Each file comes with the path of the directory that holds it. This definition does not
  use \<open>walk\<close>.
\<close>

function depth_first_files ::
  "(string \<Rightarrow> string \<Rightarrow> string) \<Rightarrow> string \<Rightarrow> (string \<times> node) list \<Rightarrow> (string \<times> string) list" where
  "depth_first_files join d es =
     map (Pair d) (file_names es)
     @ concat (map (\<lambda>(n, sub). depth_first_files join (join d n) sub) (subdirs es))"
  by pat_completeness auto
termination
proof (relation "measure (\<lambda>(join, d, es). size_list (\<lambda>p. size (snd p)) es)")
  show "wf (measure (\<lambda>(join, d, es). size_list (\<lambda>p. size (snd p)) es))" by simp
next
  fix join :: "string \<Rightarrow> string \<Rightarrow> string" and d :: string
    and es :: "(string \<times> node) list" and x n sub
  assume x: "x \<in> set (subdirs es)" and nx: "(n, sub) = x"
  have le: "size_list (\<lambda>p. size (snd p)) xs \<le> size_list (size_prod (\<lambda>x. 0) size) xs"
    for xs :: "(string \<times> node) list"
    by (induction xs) auto
  have "(n, sub) \<in> set (subdirs es) \<Longrightarrow>
      size_list (\<lambda>p. size (snd p)) sub < size_list (\<lambda>p. size (snd p)) es"
  proof (induction es rule: subdirs.induct)
    case (3 m s es)
    then show ?case using le [of sub] by (auto simp: less_Suc_eq_le)
  qed simp_all
  with x nx show "((join, join d n, sub), (join, d, es))
      \<in> measure (\<lambda>(join, d, es). size_list (\<lambda>p. size (snd p)) es)"
    by simp
qed

declare depth_first_files.simps [simp del]





section \<open>Example manifests and environments\<close>

definition download_entry :: "string \<Rightarrow> string \<Rightarrow> json" where
  "download_entry pf u = JObj [(''platform'', JStr pf), (''url'', JStr u)]"

definition version_entry :: "string \<Rightarrow> json list \<Rightarrow> json" where
  "version_entry v ds =
     JObj [(''version'', JStr v), (''downloads'', JObj [(''chromedriver'', JArr ds)])]"

definition manifest :: "json list \<Rightarrow> json" where
  "manifest es = JObj [(''timestamp'', JStr ''2024-09-01''), (''versions'', JArr es)]"

definition ok_response :: "bytes \<Rightarrow> exn + json \<Rightarrow> response" where
  "ok_response body js = \<lparr>status_code = 200, content = body, json_result = js\<rparr>"

text \<open>
  A host with POSIX paths that answers the manifest URL with \<open>man\<close> and every other URL
  with \<open>other\<close>; no file and no directory exists yet, nothing is printed.
\<close>

definition host :: "string \<Rightarrow> exn + response \<Rightarrow> exn + response \<Rightarrow> (bytes \<Rightarrow> exn + member list) \<Rightarrow> world" where
  "host system man other uz =
     \<lparr>platform_system = system, script_dir = ''/opt/tool'', os_path_join = posixpath_join,
      requests_get = (\<lambda>u. if u = JStr json_url then man else other),
      unzip = uz, files = Map.empty, trees = Map.empty, printed = []\<rparr>"

text \<open>An entry that lists a browser download only, as the manifest has them for old versions.\<close>

definition chrome_only_entry :: "string \<Rightarrow> json" where
  "chrome_only_entry v =
     JObj [(''version'', JStr v),
           (''downloads'', JObj [(''chrome'', JArr [download_entry ''linux64'' ''https://dl/chrome.zip''])])]"

definition linux_zip_url :: "string \<Rightarrow> string" where
  "linux_zip_url v = ''https://dl/'' @ v @ ''/chromedriver-linux64.zip''"

definition driver_entry :: "string \<Rightarrow> json" where
  "driver_entry v =
     version_entry v
       [download_entry ''mac-arm64'' ''https://dl/mac.zip'', download_entry ''linux64'' (linux_zip_url v)]"

text \<open>An entry whose chromedriver list has a download for macOS only.\<close>

definition mac_only_entry :: "string \<Rightarrow> json" where
  "mac_only_entry v = version_entry v [download_entry ''mac-arm64'' ''https://dl/mac.zip'']"

definition entries_128 :: "json list" where
  "entries_128 = [driver_entry ''128.0.1'', driver_entry ''128.0.2'', driver_entry ''127.9.9'']"

text \<open>
  Three archives by their bytes: the driver with its licence, the licence alone, and the
  two inside a directory as the published archives have them; any other bytes are no
  archive.
\<close>

definition archives :: "bytes \<Rightarrow> exn + member list" where
  "archives b =
     (if b = ''PK:driver'' then
        Inr [([], ''LICENSE.chromedriver'', ''licence''), ([], ''chromedriver'', ''binary'')]
      else if b = ''PK:licence'' then Inr [([], ''LICENSE.chromedriver'', ''licence'')]
      else if b = ''PK:nested'' then
        Inr [([''chromedriver-linux64''], ''LICENSE.chromedriver'', ''licence''),
             ([''chromedriver-linux64''], ''chromedriver'', ''binary'')]
      else Inl BadZipFile)"

text \<open>A Linux host where the manifest lists \<open>es\<close> and every download has the body \<open>body\<close>.\<close>

definition served :: "json list \<Rightarrow> bytes \<Rightarrow> world" where
  "served es body =
     host ''Linux'' (Inr (ok_response [] (Inr (manifest es))))
       (Inr (ok_response body (Inl InvalidJSONError))) archives"

text \<open>The line a handler of the lookup prints for an exception (lines 64 to 67).\<close>

definition lookup_report :: "exn \<Rightarrow> msg" where
  "lookup_report e = (if is_RequestException e then MsgRequestError e else MsgError e)"

text \<open>
  Hosts where the manifest request meets a status 300 with the manifest as body, a refused
  connection, a status 404, and a body that is no JSON.
\<close>

definition redirected :: world where
  "redirected =
     host ''Linux'' (Inr \<lparr>status_code = 300, content = [], json_result = Inr (manifest entries_128)\<rparr>)
       (Inr (ok_response ''PK:driver'' (Inl InvalidJSONError))) archives"

definition unreachable :: world where
  "unreachable = host ''Linux'' (Inl ConnectionError) (Inl ConnectionError) archives"

definition not_found_404 :: world where
  "not_found_404 =
     host ''Linux'' (Inr \<lparr>status_code = 404, content = [], json_result = Inr (manifest entries_128)\<rparr>)
       (Inl ConnectionError) archives"

definition garbled :: world where
  "garbled =
     host ''Linux'' (Inr (ok_response ''<html>'' (Inl InvalidJSONError))) (Inl ConnectionError) archives"

section \<open>Names for the states of a run\<close>

text \<open>
  The world after lines 85 to 89: the archive written, two lines printed.
\<close>

definition written :: "string \<Rightarrow> string \<Rightarrow> response \<Rightarrow> world \<Rightarrow> world" where
  "written v zp r w =
     w\<lparr>files := (files w)(zp \<mapsto> content r),
       printed := printed w @ [MsgDownloaded v, MsgExtracting v]\<rparr>"

text \<open>The walk of a directory that may not exist, as \<open>os_walk\<close> reads it from the world.\<close>

definition walk_tree ::
  "(string \<Rightarrow> string \<Rightarrow> string) \<Rightarrow> string \<Rightarrow> (string \<times> node) list option \<Rightarrow>
     (string \<times> string list \<times> string list) list" where
  "walk_tree join d t = (case t of None \<Rightarrow> [] | Some es \<Rightarrow> walk join d es)"

text \<open>The line a handler of the download prints for an exception (lines 109 to 114).\<close>

definition download_report :: "exn \<Rightarrow> msg" where
  "download_report e =
     (if is_RequestException e then MsgDownloadError e
      else if is_BadZipFile e then MsgBadZip else MsgError e)"

text \<open>
  What \<^verbatim>\<open>download_and_update_chromedriver\<close> makes of the outcome of its \<^verbatim>\<open>try\<close> body: a
  returned string is returned, an exception is reported and the empty string returned.
\<close>

fun finish :: "(exn + string) \<times> world \<Rightarrow> (exn + string) \<times> world" where
  "finish (Inr s, w) = (Inr s, w)"
| "finish (Inl e, w) = (Inr [], print_msg (download_report e) w)"

text \<open>The world at line 82: the lines of the lookup and line 81 printed.\<close>

definition announced :: "msg list \<Rightarrow> string \<Rightarrow> world \<Rightarrow> world" where
  "announced pm v w = w\<lparr>printed := printed w @ pm @ [MsgDownloading v]\<rparr>"

text \<open>The lines that report a failure of the driver update.\<close>

fun is_failure_report :: "msg \<Rightarrow> bool" where
  "is_failure_report (MsgNoSuitable _) = True"
| "is_failure_report MsgDriverNotFound = True"
| "is_failure_report (MsgDownloadError _) = True"
| "is_failure_report MsgBadZip = True"
| "is_failure_report (MsgError _) = True"
| "is_failure_report _ = False"

text \<open>The names of the regular files of a directory tree, at every depth.\<close>

fun tree_files :: "(string \<times> node) list \<Rightarrow> string list" where
  "tree_files [] = []"
| "tree_files ((n, File _) # es) = n # tree_files es"
| "tree_files ((n, Dir sub) # es) = tree_files sub @ tree_files es"

definition the_entries :: "(string \<times> node) list option \<Rightarrow> (string \<times> node) list" where
  "the_entries t = (case t of None \<Rightarrow> [] | Some es \<Rightarrow> es)"

text \<open>
  More example environments: two hosts of an unrecognised system; a host whose extraction
  directory holds a driver of an earlier run; one where a directory stands in the place of
  the driver file; one with a file of the user next to the script.
\<close>

definition bsd :: world where
  "bsd =
     host ''FreeBSD'' (Inr (ok_response [] (Inr (manifest entries_128))))
       (Inr (ok_response ''PK:driver'' (Inl InvalidJSONError))) archives"

definition sunos :: world where
  "sunos =
     host ''SunOS'' (Inr (ok_response [] (Inr (manifest entries_128))))
       (Inr (ok_response ''PK:driver'' (Inl InvalidJSONError))) archives"

definition stale :: world where
  "stale =
     (served entries_128 ''PK:licence'')
       \<lparr>trees := [''/opt/tool/chromedriver_128.0.1'' \<mapsto> [(''chromedriver'', File ''old'')]]\<rparr>"

definition blocked :: world where
  "blocked =
     (served entries_128 ''PK:driver'')
       \<lparr>trees := [''/opt/tool/chromedriver_128.0.1'' \<mapsto> [(''chromedriver'', Dir [])]]\<rparr>"



section \<open>Facts about the string operations\<close>




lemma startswith_nonempty: "startswith f (c # p) \<Longrightarrow> f \<noteq> []"
  by (cases f) auto

lemma posixpath_join_nonempty: "f \<noteq> [] \<Longrightarrow> posixpath_join root f \<noteq> []"
  by (simp add: posixpath_join_def)

lemma posixpath_join_suffix:
  assumes "\<not> startswith f ''/''"
  shows "\<exists>pre. posixpath_join root f = pre @ f"
  using assms by (auto simp: posixpath_join_def intro: exI [of _ "root @ ''/''"])

section \<open>Platform resolution\<close>

text \<open>
  Claim C5. Platform resolution is a function of the host OS identifier alone: Windows
  gives win32, Darwin gives mac-arm64, Linux gives linux64, every other identifier raises
  the unsupported-platform error, and a result is always one of the three tags.
\<close>

theorem platform_resolution:
  "get_platform_name ''Windows'' = Inr ''win32''
   \<and> get_platform_name ''Darwin'' = Inr ''mac-arm64''
   \<and> get_platform_name ''Linux'' = Inr ''linux64''
   \<and> (\<forall>s. s \<notin> {''Windows'', ''Darwin'', ''Linux''} \<longrightarrow> get_platform_name s = Inl (RuntimeError s))
   \<and> (\<forall>s t. get_platform_name s = Inr t \<longrightarrow> t \<in> {''win32'', ''mac-arm64'', ''linux64''})"
  by (simp add: get_platform_name_def)

theorem platform_resolution_witness:
  "''FreeBSD'' \<notin> {''Windows'', ''Darwin'', ''Linux''}
   \<and> get_platform_name ''FreeBSD'' = Inl (RuntimeError ''FreeBSD'')
   \<and> get_platform_name ''Darwin'' = Inr ''mac-arm64''
   \<and> ''mac-arm64'' \<in> {''win32'', ''mac-arm64'', ''linux64''}"
  using platform_resolution by simp

section \<open>Version prefixes\<close>



section \<open>The scan of the manifest\<close>

lemma scan_downloads_shape:
  "list_all download_shape ds \<Longrightarrow>
   scan_downloads tag ds = Inr (case find (offers tag) ds of None \<Rightarrow> None | Some d \<Rightarrow> download_url d)"
  by (induction ds) (auto simp: download_shape_def offers_def download_url_def split: sum.splits json.splits bool.splits)

lemma find_offers_none: "find (offers tag) ds = None \<longleftrightarrow> \<not> list_ex (offers tag) ds"
  by (induction ds) auto

lemma find_offers_shape:
  "list_all download_shape ds \<Longrightarrow> find (offers tag) ds = Some d \<Longrightarrow> \<exists>u. download_url d = Some u"
  by (induction ds) (auto simp: download_shape_def download_url_def split: sum.splits json.splits if_splits)

lemma first_match_Cons:
  "first_match tag p (e # es) =
     (if entry_matches tag p e then
        (case (find (offers tag) (chromedriver_downloads e), entry_version e) of
           (Some d, Some v) \<Rightarrow> map_option (\<lambda>u. (u, v)) (download_url d)
         | _ \<Rightarrow> None)
      else first_match tag p es)"
  by (simp add: first_match_def)

lemma scan_versions_shape:
  "list_all (entry_shape p) es \<Longrightarrow> scan_versions tag p es = Inr (first_match tag p es)"
proof (induction es)
  case Nil
  then show ?case by (simp add: first_match_def)
next
  case (Cons e es)
  then have IH: "scan_versions tag p es = Inr (first_match tag p es)" and sh: "entry_shape p e"
    by simp_all
  from sh obtain v where v: "py_getitem e ''version'' = Inr (JStr v)"
    by (auto simp: entry_shape_def split: sum.splits json.splits)
  then have ev: "entry_version e = Some v" by (simp add: entry_version_def)
  show ?case
  proof (cases "startswith v p")
    case False
    then have "\<not> entry_matches tag p e" by (simp add: entry_matches_def ev)
    with False v IH show ?thesis by (simp add: first_match_Cons)
  next
    case True
    with sh v obtain dl ds where dl: "py_getitem e ''downloads'' = Inr dl"
      and ds: "py_getitem dl ''chromedriver'' = Inr (JArr ds)" and dsh: "list_all download_shape ds"
      by (auto simp: entry_shape_def split: sum.splits json.splits)
    then have cd: "chromedriver_downloads e = ds" by (simp add: chromedriver_downloads_def)
    show ?thesis
    proof (cases "find (offers tag) ds")
      case None
      then have "\<not> entry_matches tag p e"
        by (simp add: entry_matches_def ev cd find_offers_none)
      with None True v dl ds IH show ?thesis
        by (simp add: first_match_Cons scan_downloads_shape [OF dsh])
    next
      case (Some d)
      then have m: "entry_matches tag p e"
        using True find_offers_none [of tag ds] by (simp add: entry_matches_def ev cd)
      from find_offers_shape [OF dsh Some] obtain u where u: "download_url d = Some u" ..
      with Some True v dl ds m show ?thesis
        by (simp add: first_match_Cons scan_downloads_shape [OF dsh] ev cd)
    qed
  qed
qed

lemma find_None_list_ex: "\<not> list_ex P xs \<Longrightarrow> find P xs = None"
  by (induction xs) auto

lemma find_Some_split:
  "find P xs = Some x \<Longrightarrow> \<exists>ys zs. xs = ys @ x # zs \<and> P x \<and> \<not> list_ex P ys"
proof (induction xs)
  case Nil
  then show ?case by simp
next
  case (Cons a xs)
  show ?case
  proof (cases "P a")
    case True
    with Cons.prems have "a = x" by simp
    with True have "a # xs = [] @ x # xs \<and> P x \<and> \<not> list_ex P []" by simp
    then show ?thesis by blast
  next
    case False
    with Cons obtain ys zs where "xs = ys @ x # zs" "P x" "\<not> list_ex P ys" by auto
    with False have "a # xs = (a # ys) @ x # zs \<and> P x \<and> \<not> list_ex P (a # ys)" by simp
    then show ?thesis by blast
  qed
qed

lemma shape_chromedriver_downloads:
  assumes "entry_shape p e" and "entry_version e = Some v" and "startswith v p"
  shows "list_all download_shape (chromedriver_downloads e)"
  using assms
  by (auto simp: entry_shape_def entry_version_def chromedriver_downloads_def
      split: sum.splits json.splits)

lemma first_match_meaning:
  assumes "list_all (entry_shape p) es"
  shows "case first_match tag p es of
           None \<Rightarrow> \<not> list_ex (entry_matches tag p) es
         | Some (u, v) \<Rightarrow>
             (\<exists>pre e post d. es = pre @ e # post
                \<and> \<not> list_ex (entry_matches tag p) pre
                \<and> entry_version e = Some v \<and> startswith v p
                \<and> find (offers tag) (chromedriver_downloads e) = Some d
                \<and> download_url d = Some u)"
proof (cases "find (entry_matches tag p) es")
  case None
  then have "\<not> list_ex (entry_matches tag p) es"
    by (simp add: find_None_iff list_ex_iff)
  with None show ?thesis by (simp add: first_match_def)
next
  case (Some e)
  from find_Some_split [OF Some] obtain pre post where
    es: "es = pre @ e # post" and m: "entry_matches tag p e"
    and pre: "\<not> list_ex (entry_matches tag p) pre"
    by blast
  from m obtain v where v: "entry_version e = Some v" and sw: "startswith v p"
    and ex: "list_ex (offers tag) (chromedriver_downloads e)"
    by (auto simp: entry_matches_def split: option.splits)
  from ex obtain d where d: "find (offers tag) (chromedriver_downloads e) = Some d"
    using find_offers_none [of tag "chromedriver_downloads e"] by auto
  from assms es have "entry_shape p e" by simp
  from shape_chromedriver_downloads [OF this v sw]
  have "list_all download_shape (chromedriver_downloads e)" .
  from find_offers_shape [OF this d] obtain u where u: "download_url d = Some u" ..
  have "first_match tag p es = Some (u, v)"
    using Some v d u by (simp add: first_match_def)
  with es pre v sw d u show ?thesis by auto
qed

lemma lookup_on_shape:
  assumes "requests_get w (JStr json_url) = Inr r"
    and "raise_for_status r = Inr ()"
    and "json_result r = Inr data"
    and "py_getitem data ''versions'' = Inr (JArr es)"
    and "get_platform_name (platform_system w) = Inr tag"
    and "list_all (entry_shape p) es"
  shows "fst (fetch_closest_chromedriver_url p w) = Inr (first_match tag p es)"
  using assms(1-5) scan_versions_shape [OF assms(6), of tag]
  by (simp add: fetch_closest_chromedriver_url_def fetch_try_body_def Let_def
      split: option.splits prod.splits)

section \<open>The walk and the run after a lookup\<close>

lemma scan_files_find:
  "scan_files j root fs df =
     (case find (\<lambda>f. startswith f ''chromedriver'') fs of
        Some f \<Rightarrow> Some (j root f) | None \<Rightarrow> df)"
  by (induction fs) simp_all

lemma find_walk_files_Cons:
  "find (\<lambda>(root, f). startswith f ''chromedriver'') (walk_files ((root, dirs, fs) # rest)) =
     (case find (\<lambda>f. startswith f ''chromedriver'') fs of
        Some f \<Rightarrow> Some (root, f)
      | None \<Rightarrow> find (\<lambda>(root, f). startswith f ''chromedriver'') (walk_files rest))"
  by (induction fs) simp_all

lemma scan_walk_find:
  assumes "\<forall>a b. b \<noteq> [] \<longrightarrow> j a b \<noteq> []"
  shows "\<not> str_truthy df \<Longrightarrow>
   scan_walk j ws df =
     (case find (\<lambda>(root, f). startswith f ''chromedriver'') (walk_files ws) of
        Some (root, f) \<Rightarrow> Some (j root f) | None \<Rightarrow> df)"
proof (induction ws arbitrary: df)
  case Nil
  then show ?case by simp
next
  case (Cons t ws)
  obtain root dirs fs where t: "t = (root, dirs, fs)" by (cases t)
  show ?case
  proof (cases "find (\<lambda>f. startswith f ''chromedriver'') fs")
    case None
    with Cons t show ?thesis
      by (simp add: scan_files_find find_walk_files_Cons del: walk_files.simps)
  next
    case (Some f)
    then have "startswith f ''chromedriver''" by (auto simp: find_Some_iff)
    then have "f \<noteq> []" by (rule startswith_nonempty)
    with assms have "j root f \<noteq> []" by blast
    with Some t show ?thesis
      by (simp add: scan_files_find find_walk_files_Cons del: walk_files.simps)
  qed
qed

lemma scan_walk_none_found:
  assumes "find (\<lambda>(root, f). startswith f ''chromedriver'') (walk_files ws) = None"
  shows "scan_walk j ws None = None"
  using assms
proof (induction ws)
  case Nil
  then show ?case by simp
next
  case (Cons t ws)
  obtain root dirs fs where t: "t = (root, dirs, fs)" by (cases t)
  from Cons.prems t have "find (\<lambda>f. startswith f ''chromedriver'') fs = None"
    and "find (\<lambda>(root, f). startswith f ''chromedriver'') (walk_files ws) = None"
    by (simp_all add: find_walk_files_Cons del: walk_files.simps split: option.splits)
  with Cons.IH t show ?case by (simp add: scan_files_find)
qed

lemma fetch_result:
  "\<exists>r ms. fetch_closest_chromedriver_url p w = (Inr r, w\<lparr>printed := printed w @ ms\<rparr>)"
  unfolding fetch_closest_chromedriver_url_def fetch_try_body_def print_msg_def Let_def
  by (auto split: sum.splits option.splits prod.splits intro: exI [of _ "[x, y]" for x y] exI [of _ "[x]" for x])

lemma fetch_cases:
  assumes "fst (fetch_closest_chromedriver_url p w) = Inr x"
  obtains ms where "fetch_closest_chromedriver_url p w = (Inr x, w\<lparr>printed := printed w @ ms\<rparr>)"
  using assms fetch_result [of p w] by auto

lemma fetch_env:
  "os_path_join (snd (fetch_closest_chromedriver_url p w)) = os_path_join w"
  "script_dir (snd (fetch_closest_chromedriver_url p w)) = script_dir w"
  "files (snd (fetch_closest_chromedriver_url p w)) = files w"
  "trees (snd (fetch_closest_chromedriver_url p w)) = trees w"
  using fetch_result [of p w] by auto

lemma run_success:
  assumes lookup: "fst (fetch_closest_chromedriver_url p w) = Inr (Some (url, v))"
    and truthy: "py_truthy url"
    and get: "requests_get w url = Inr r"
    and ok: "raise_for_status r = Inr ()"
    and uz: "unzip w (content r) = Inr ms"
    and ex: "extract_members ms (trees w (extract_dir_of w v)) = (Inr (), Some t)"
    and found: "find (\<lambda>(root, f). startswith f ''chromedriver'')
                  (walk_files (walk (os_path_join w) (extract_dir_of w v) t)) = Some (root, f)"
    and join: "\<forall>a b. b \<noteq> [] \<longrightarrow> os_path_join w a b \<noteq> []"
  shows "fst (download_and_update_chromedriver p w) = Inr (os_path_join w root f)
       \<and> files (snd (download_and_update_chromedriver p w)) (zip_path_of w v) = None
       \<and> trees (snd (download_and_update_chromedriver p w)) (extract_dir_of w v) = Some t"
proof -
  from lookup obtain pm where
    f: "fetch_closest_chromedriver_url p w = (Inr (Some (url, v)), w\<lparr>printed := printed w @ pm\<rparr>)"
    by (rule fetch_cases)
  have sw: "scan_walk (os_path_join w) (walk (os_path_join w) (extract_dir_of w v) t) None =
      Some (os_path_join w root f)"
    using found by (simp add: scan_walk_find [OF join] del: walk.simps)
  from found have "startswith f ''chromedriver''" by (auto simp: find_Some_iff)
  then have "f \<noteq> []" by (rule startswith_nonempty)
  with join have ne: "os_path_join w root f \<noteq> []" by blast
  show ?thesis
    unfolding download_and_update_chromedriver_def f
    using truthy get ok uz ex sw ne
    by (simp add: download_try_body_def open_write_def zip_extractall_def os_remove_def
        os_walk_def print_msg_def Let_def zip_path_of_def extract_dir_of_def del: walk.simps)
qed

section \<open>The example environments\<close>

lemma served_simps:
  "requests_get (served es body) (JStr json_url) = Inr (ok_response [] (Inr (manifest es)))"
  "platform_system (served es body) = ''Linux''"
  "raise_for_status (ok_response b js) = Inr ()"
  "json_result (ok_response b js) = js"
  "py_getitem (manifest es) ''versions'' = Inr (JArr es)"
  by (simp_all add: served_def host_def ok_response_def raise_for_status_def manifest_def)

lemma first_match_128:
  "first_match ''linux64'' ''128'' entries_128 = Some (JStr (linux_zip_url ''128.0.1''), ''128.0.1'')"
  by (simp add: first_match_def entries_128_def driver_entry_def version_entry_def
      download_entry_def entry_matches_def entry_version_def chromedriver_downloads_def
      offers_def download_url_def)

lemma shape_128: "list_all (entry_shape ''128'') entries_128"
  by (simp add: entries_128_def driver_entry_def version_entry_def
      download_entry_def entry_shape_def download_shape_def)

lemma entry_defs:
  "py_getitem (version_entry v ds) ''version'' = Inr (JStr v)"
  "py_getitem (version_entry v ds) ''downloads'' = Inr (JObj [(''chromedriver'', JArr ds)])"
  "py_getitem (chrome_only_entry v) ''version'' = Inr (JStr v)"
  "py_getitem (chrome_only_entry v) ''downloads'' =
     Inr (JObj [(''chrome'', JArr [download_entry ''linux64'' ''https://dl/chrome.zip''])])"
  "py_getitem (download_entry pf u) ''platform'' = Inr (JStr pf)"
  "py_getitem (download_entry pf u) ''url'' = Inr (JStr u)"
  by (simp_all add: version_entry_def chrome_only_entry_def download_entry_def)

lemma paths_128:
  assumes "os_path_join w = posixpath_join" and "script_dir w = ''/opt/tool''"
  shows "extract_dir_of w ''128.0.1'' = ''/opt/tool/chromedriver_128.0.1''"
    and "zip_path_of w ''128.0.1'' = ''/opt/tool/chromedriver_128.0.1.zip''"
  using assms by (simp_all add: extract_dir_of_def zip_path_of_def posixpath_join_def)

lemma posix_join_nonempty: "\<forall>a b. b \<noteq> [] \<longrightarrow> posixpath_join a b \<noteq> []"
  by (simp add: posixpath_join_nonempty)

lemma linux_zip_url_neq: "JStr (linux_zip_url v) \<noteq> JStr json_url"
  by (simp add: linux_zip_url_def json_url_def)


section \<open>The outcomes of the download\<close>

lemma dtb_get_fail:
  "requests_get w url = Inl e \<Longrightarrow> download_try_body url v zp ed w = (Inl e, w)"
  by (simp add: download_try_body_def)

lemma dtb_status_fail:
  "requests_get w url = Inr r \<Longrightarrow> raise_for_status r = Inl e \<Longrightarrow>
   download_try_body url v zp ed w = (Inl e, w)"
  by (simp add: download_try_body_def)

lemma dtb_unzip_fail:
  "requests_get w url = Inr r \<Longrightarrow> raise_for_status r = Inr () \<Longrightarrow>
   unzip w (content r) = Inl e \<Longrightarrow>
   download_try_body url v zp ed w = (Inl e, written v zp r w)"
  by (simp add: download_try_body_def open_write_def zip_extractall_def print_msg_def written_def)

lemma dtb_extract_fail:
  "requests_get w url = Inr r \<Longrightarrow> raise_for_status r = Inr () \<Longrightarrow>
   unzip w (content r) = Inr ms \<Longrightarrow> extract_members ms (trees w ed) = (Inl e, t) \<Longrightarrow>
   download_try_body url v zp ed w = (Inl e, (written v zp r w)\<lparr>trees := (trees w)(ed := t)\<rparr>)"
  by (simp add: download_try_body_def open_write_def zip_extractall_def print_msg_def written_def)

lemma dtb_not_found:
  "requests_get w url = Inr r \<Longrightarrow> raise_for_status r = Inr () \<Longrightarrow>
   unzip w (content r) = Inr ms \<Longrightarrow> extract_members ms (trees w ed) = (Inr (), t) \<Longrightarrow>
   \<not> str_truthy (scan_walk (os_path_join w) (walk_tree (os_path_join w) ed t) None) \<Longrightarrow>
   download_try_body url v zp ed w =
     (Inr [], print_msg MsgDriverNotFound ((written v zp r w)\<lparr>trees := (trees w)(ed := t)\<rparr>))"
  by (simp add: download_try_body_def open_write_def zip_extractall_def print_msg_def written_def
      os_walk_def walk_tree_def Let_def del: walk.simps cong: option.case_cong)

lemma dtb_found:
  "requests_get w url = Inr r \<Longrightarrow> raise_for_status r = Inr () \<Longrightarrow>
   unzip w (content r) = Inr ms \<Longrightarrow> extract_members ms (trees w ed) = (Inr (), t) \<Longrightarrow>
   str_truthy (scan_walk (os_path_join w) (walk_tree (os_path_join w) ed t) None) \<Longrightarrow>
   download_try_body url v zp ed w =
     (Inr (the_path (scan_walk (os_path_join w) (walk_tree (os_path_join w) ed t) None)),
      print_msg (MsgDriverPath (the_path (scan_walk (os_path_join w) (walk_tree (os_path_join w) ed t) None)))
        ((written v zp r w)\<lparr>files := (files w)(zp := None), trees := (trees w)(ed := t)\<rparr>))"
  by (simp add: download_try_body_def open_write_def zip_extractall_def print_msg_def written_def
      os_walk_def walk_tree_def os_remove_def Let_def del: walk.simps cong: option.case_cong)

lemma dtb_cases [case_names get_fail status_fail unzip_fail extract_fail not_found found]:
  obtains
    e where "requests_get w url = Inl e" "download_try_body url v zp ed w = (Inl e, w)"
  | r e where "requests_get w url = Inr r" "raise_for_status r = Inl e"
      "download_try_body url v zp ed w = (Inl e, w)"
  | r e where "requests_get w url = Inr r" "raise_for_status r = Inr ()"
      "unzip w (content r) = Inl e"
      "download_try_body url v zp ed w = (Inl e, written v zp r w)"
  | r ms e t where "requests_get w url = Inr r" "raise_for_status r = Inr ()"
      "unzip w (content r) = Inr ms" "extract_members ms (trees w ed) = (Inl e, t)"
      "download_try_body url v zp ed w = (Inl e, (written v zp r w)\<lparr>trees := (trees w)(ed := t)\<rparr>)"
  | r ms t where "requests_get w url = Inr r" "raise_for_status r = Inr ()"
      "unzip w (content r) = Inr ms" "extract_members ms (trees w ed) = (Inr (), t)"
      "\<not> str_truthy (scan_walk (os_path_join w) (walk_tree (os_path_join w) ed t) None)"
      "download_try_body url v zp ed w =
         (Inr [], print_msg MsgDriverNotFound ((written v zp r w)\<lparr>trees := (trees w)(ed := t)\<rparr>))"
  | r ms t where "requests_get w url = Inr r" "raise_for_status r = Inr ()"
      "unzip w (content r) = Inr ms" "extract_members ms (trees w ed) = (Inr (), t)"
      "str_truthy (scan_walk (os_path_join w) (walk_tree (os_path_join w) ed t) None)"
      "download_try_body url v zp ed w =
     (Inr (the_path (scan_walk (os_path_join w) (walk_tree (os_path_join w) ed t) None)),
      print_msg (MsgDriverPath (the_path (scan_walk (os_path_join w) (walk_tree (os_path_join w) ed t) None)))
        ((written v zp r w)\<lparr>files := (files w)(zp := None), trees := (trees w)(ed := t)\<rparr>))"
proof (cases "requests_get w url")
  case (Inl e)
  then show ?thesis using that(1) dtb_get_fail by blast
next
  case g: (Inr r)
  show ?thesis
  proof (cases "raise_for_status r")
    case (Inl e)
    with g show ?thesis using that(2) dtb_status_fail by blast
  next
    case (Inr u)
    then have st: "raise_for_status r = Inr ()" by simp
    show ?thesis
    proof (cases "unzip w (content r)")
      case (Inl e)
      with g st show ?thesis using that(3) dtb_unzip_fail by blast
    next
      case uz: (Inr ms)
      obtain res t where ex: "extract_members ms (trees w ed) = (res, t)"
        by (cases "extract_members ms (trees w ed)")
      show ?thesis
      proof (cases res)
        case (Inl e)
        with g st uz ex show ?thesis using that(4) dtb_extract_fail by blast
      next
        case (Inr u')
        with ex have ex': "extract_members ms (trees w ed) = (Inr (), t)" by simp
        show ?thesis
        proof (cases "str_truthy (scan_walk (os_path_join w) (walk_tree (os_path_join w) ed t) None)")
          case True
          with g st uz ex' show ?thesis using that(6) dtb_found by blast
        next
          case False
          with g st uz ex' show ?thesis using that(5) dtb_not_found by blast
        qed
      qed
    qed
  qed
qed

lemma dau_download:
  assumes "fst (fetch_closest_chromedriver_url p w) = Inr (Some (url, v))" and "py_truthy url"
  obtains pm where
    "download_and_update_chromedriver p w =
       finish (download_try_body url v (zip_path_of w v)
                 (extract_dir_of w v) (announced pm v w))"
proof -
  from assms(1) obtain pm where
    f: "fetch_closest_chromedriver_url p w = (Inr (Some (url, v)), w\<lparr>printed := printed w @ pm\<rparr>)"
    by (rule fetch_cases)
  have "download_and_update_chromedriver p w =
       finish (download_try_body url v (zip_path_of w v)
                 (extract_dir_of w v) (announced pm v w))"
    unfolding download_and_update_chromedriver_def f using assms(2)
    by (simp add: Let_def announced_def print_msg_def download_report_def
        zip_path_of_def extract_dir_of_def split: prod.splits sum.splits)
  then show thesis by (rule that)
qed

lemma dau_no_download:
  assumes "fst (fetch_closest_chromedriver_url p w) = Inr None
     \<or> (\<exists>url v. fst (fetch_closest_chromedriver_url p w) = Inr (Some (url, v)) \<and> \<not> py_truthy url)"
  shows "download_and_update_chromedriver p w =
           (Inr [], print_msg (MsgNoSuitable p) (snd (fetch_closest_chromedriver_url p w)))"
  using assms
  by (cases "fetch_closest_chromedriver_url p w")
    (auto simp: download_and_update_chromedriver_def)

lemma dau_cases [case_names no_download download]:
  obtains "download_and_update_chromedriver p w =
           (Inr [], print_msg (MsgNoSuitable p) (snd (fetch_closest_chromedriver_url p w)))"
  | url v pm where "fst (fetch_closest_chromedriver_url p w) = Inr (Some (url, v))" "py_truthy url"
      "download_and_update_chromedriver p w =
       finish (download_try_body url v (zip_path_of w v)
                 (extract_dir_of w v) (announced pm v w))"
proof -
  from fetch_result [of p w] obtain x where x: "fst (fetch_closest_chromedriver_url p w) = Inr x"
    by auto
  show thesis
  proof (cases x)
    case None
    with x show ?thesis using that(1) dau_no_download by blast
  next
    case (Some uv)
    obtain url v where uv: "uv = (url, v)" by (cases uv)
    show ?thesis
    proof (cases "py_truthy url")
      case True
      from x Some uv have l: "fst (fetch_closest_chromedriver_url p w) = Inr (Some (url, v))" by simp
      from dau_download [OF l True] that(2) [OF l True] show ?thesis by blast
    next
      case False
      with x Some uv show ?thesis using that(1) dau_no_download by blast
    qed
  qed
qed

lemma announced_env [simp]:
  "requests_get (announced pm v w) = requests_get w"
  "unzip (announced pm v w) = unzip w"
  "files (announced pm v w) = files w"
  "trees (announced pm v w) = trees w"
  "script_dir (announced pm v w) = script_dir w"
  "os_path_join (announced pm v w) = os_path_join w"
  "platform_system (announced pm v w) = platform_system w"
  by (simp_all add: announced_def)

lemma written_env [simp]:
  "files (written v zp r w) = (files w)(zp \<mapsto> content r)"
  "trees (written v zp r w) = trees w"
  "printed (written v zp r w) = printed w @ [MsgDownloaded v, MsgExtracting v]"
  "os_path_join (written v zp r w) = os_path_join w"
  by (simp_all add: written_def)

lemma print_msg_env [simp]:
  "files (print_msg m w) = files w"
  "trees (print_msg m w) = trees w"
  "printed (print_msg m w) = printed w @ [m]"
  "os_path_join (print_msg m w) = os_path_join w"
  by (simp_all add: print_msg_def)

lemma str_truthy_the_path: "str_truthy df \<Longrightarrow> the_path df \<noteq> []"
  by (cases df) simp_all

lemma dau_returns: "\<exists>s. fst (download_and_update_chromedriver p w) = Inr s"
proof (cases p w rule: dau_cases)
  case no_download
  then show ?thesis by simp
next
  case (download url v pm)
  then show ?thesis
    by (cases "download_try_body url v (zip_path_of w v)
                 (extract_dir_of w v) (announced pm v w)" rule: finish.cases) simp_all
qed

lemma failure_report_download: "is_failure_report (download_report e)"
  by (simp add: download_report_def)

lemma dau_empty_reported:
  assumes "fst (download_and_update_chromedriver p w) = Inr []"
  shows "printed (snd (download_and_update_chromedriver p w)) \<noteq> []
       \<and> is_failure_report (last (printed (snd (download_and_update_chromedriver p w))))"
proof (cases p w rule: dau_cases)
  case no_download
  then show ?thesis by simp
next
  case (download url v pm)
  let ?zp = "zip_path_of w v" and ?ed = "extract_dir_of w v"
  show ?thesis
  proof (cases rule: dtb_cases [where w = "announced pm v w" and url = url and v = v
        and zp = ?zp and ed = ?ed])
    case found
    with download(3) assms str_truthy_the_path show ?thesis by auto
  qed (simp_all add: download(3) failure_report_download)
qed


section \<open>The walk reaches every file, in depth-first order\<close>

lemma tree_files_append: "tree_files (es @ fs) = tree_files es @ tree_files fs"
  by (induction es rule: tree_files.induct) simp_all

lemma tree_files_Cons:
  "set (tree_files ((k, nd) # es)) = set (tree_files [(k, nd)]) \<union> set (tree_files es)"
  by (cases nd) simp_all

lemma tree_files_parts:
  "set (tree_files es) =
     set (file_names es) \<union> (\<Union>ns \<in> set (subdirs es). set (tree_files (snd ns)))"
  by (induction es rule: tree_files.induct) auto

lemma walk_files_append: "walk_files (xs @ ys) = walk_files xs @ walk_files ys"
  by (induction xs rule: walk_files.induct) simp_all

lemma walk_is_depth_first:
  "walk_files (walk j d es) = depth_first_files j d es"
  "walk_files (walk_subdirs j d es) =
     concat (map (\<lambda>(n, sub). depth_first_files j (j d n) sub) (subdirs es))"
proof (induction j d es and j d es rule: walk_walk_subdirs.induct)
  case (1 join dirpath es)
  then show ?case by (simp add: depth_first_files.simps [of join dirpath es])
next
  case (2 join dirpath)
  then show ?case by simp
next
  case (3 join dirpath n uu es)
  then show ?case by simp
next
  case (4 join dirpath n sub es)
  then show ?case by (simp add: walk_files_append del: walk.simps)
qed

lemma depth_first_files_complete:
  "snd ` set (depth_first_files j d es) = set (tree_files es)"
proof (induction j d es rule: depth_first_files.induct)
  case (1 join d es)
  have IH: "snd ` set (depth_first_files join (join d n) sub) = set (tree_files sub)"
    if "(n, sub) \<in> set (subdirs es)" for n sub
    using "1" [of "(n, sub)" n sub] that by simp
  show ?case
  proof (rule set_eqI)
    fix x
    have "x \<in> snd ` set (depth_first_files join d es) \<longleftrightarrow>
        x \<in> set (file_names es)
        \<or> (\<exists>n sub. (n, sub) \<in> set (subdirs es)
              \<and> x \<in> snd ` set (depth_first_files join (join d n) sub))"
      by (subst depth_first_files.simps) force
    also have "\<dots> \<longleftrightarrow>
        x \<in> set (file_names es)
        \<or> (\<exists>n sub. (n, sub) \<in> set (subdirs es) \<and> x \<in> set (tree_files sub))"
      using IH by blast
    also have "\<dots> \<longleftrightarrow> x \<in> set (tree_files es)"
      by (subst tree_files_parts [of es]) force
    finally show "x \<in> snd ` set (depth_first_files join d es) \<longleftrightarrow> x \<in> set (tree_files es)" .
  qed
qed

lemma walk_reaches_every_file:
  "snd ` set (walk_files (walk j d es)) = set (tree_files es)"
  by (simp add: walk_is_depth_first depth_first_files_complete del: walk.simps)

lemma replace_entry_files:
  "set (tree_files (replace_entry k nd es)) \<subseteq> set (tree_files es) \<union> set (tree_files [(k, nd)])"
proof (induction es)
  case Nil
  then show ?case by simp
next
  case (Cons e es)
  obtain k' x where e: "e = (k', x)" by (cases e)
  show ?case
  proof (cases "k' = k")
    case True
    with e show ?thesis using tree_files_Cons [of k nd es] tree_files_Cons [of k x es] by auto
  next
    case False
    with e Cons show ?thesis
      using tree_files_Cons [of k' x "replace_entry k nd es"] tree_files_Cons [of k' x es]
      by auto
  qed
qed

lemma insert_file_files:
  "insert_file ds name data es = Inr es' \<Longrightarrow>
   set (tree_files es') \<subseteq> insert name (set (tree_files es))"
proof (induction ds arbitrary: es es')
  case Nil
  then show ?case
    using replace_entry_files [of name "File data" es]
    by (auto simp: tree_files_append split: option.splits node.splits)
next
  case (Cons d ds)
  show ?case
  proof (cases "map_of es d")
    case None
    with Cons.prems obtain sub where s: "insert_file ds name data [] = Inr sub"
      and e: "es' = es @ [(d, Dir sub)]"
      by (auto split: sum.splits)
    from Cons.IH [OF s] e show ?thesis by (auto simp: tree_files_append)
  next
    case (Some nd)
    with Cons.prems obtain sub0 sub where nd: "nd = Dir sub0"
      and s: "insert_file ds name data sub0 = Inr sub"
      and e: "es' = replace_entry d (Dir sub) es"
      by (auto split: sum.splits node.splits)
    have "set (tree_files sub0) \<subseteq> set (tree_files es)"
      using Some nd by (induction es rule: tree_files.induct) (auto split: if_splits)
    with Cons.IH [OF s] e replace_entry_files [of d "Dir sub" es] show ?thesis by auto
  qed
qed

lemma extract_members_files:
  "extract_members ms t = (r, t') \<Longrightarrow>
   set (tree_files (the_entries t')) \<subseteq> set (tree_files (the_entries t)) \<union> (\<lambda>m. fst (snd m)) ` set ms"
proof (induction ms arbitrary: t)
  case Nil
  then show ?case by simp
next
  case (Cons m ms)
  obtain ds name data where m: "m = (ds, name, data)" by (cases m)
  show ?case
  proof (cases "insert_file ds name data (the_entries t)")
    case (Inl e)
    with Cons.prems m show ?thesis by (auto simp: the_entries_def)
  next
    case (Inr es')
    with Cons.prems m have "extract_members ms (Some es') = (r, t')"
      by (simp add: the_entries_def)
    from Cons.IH [OF this] insert_file_files [OF Inr] m show ?thesis
      by (auto simp: the_entries_def)
  qed
qed

lemma scan_walk_none:
  assumes "\<forall>name \<in> set (tree_files (the_entries t)). \<not> startswith name ''chromedriver''"
  shows "scan_walk j (walk_tree j d t) None = None"
proof (cases t)
  case None
  then show ?thesis by (simp add: walk_tree_def)
next
  case (Some es)
  have "b \<in> set (tree_files es)" if "(a, b) \<in> set (walk_files (walk j d es))" for a b
    using walk_reaches_every_file [of j d es] that by (metis image_eqI snd_conv)
  with assms Some
  have "find (\<lambda>(root, f). startswith f ''chromedriver'') (walk_files (walk j d es)) = None"
    by (auto simp: find_None_iff the_entries_def simp del: walk.simps)
  then show ?thesis using Some
    by (simp add: walk_tree_def scan_walk_none_found del: walk.simps)
qed

section \<open>An unrecognised host\<close>

lemma unsupported_lookup:
  assumes "platform_system w \<notin> {''Windows'', ''Darwin'', ''Linux''}"
  shows "\<exists>e. fetch_closest_chromedriver_url p w = (Inr None, print_msg (lookup_report e) w)"
proof -
  from assms have "get_platform_name (platform_system w) = Inl (RuntimeError (platform_system w))"
    by (simp add: get_platform_name_def)
  then have "\<exists>e. fetch_try_body p w = (Inl e, w)"
    by (simp add: fetch_try_body_def split: sum.splits)
  then show ?thesis
    by (auto simp: fetch_closest_chromedriver_url_def lookup_report_def)
qed

lemma unsupported_run:
  assumes "platform_system w \<notin> {''Windows'', ''Darwin'', ''Linux''}"
    and "requests_get w (JStr json_url) = Inr r" and "raise_for_status r = Inr ()"
    and "json_result r = Inr data"
  shows "download_and_update_chromedriver p w =
     (Inr [], print_msg (MsgNoSuitable p) (print_msg (MsgError (RuntimeError (platform_system w))) w))"
proof -
  from assms(1) have "get_platform_name (platform_system w) = Inl (RuntimeError (platform_system w))"
    by (simp add: get_platform_name_def)
  with assms(2-4) have "fetch_try_body p w = (Inl (RuntimeError (platform_system w)), w)"
    by (simp add: fetch_try_body_def)
  then have "fetch_closest_chromedriver_url p w =
      (Inr None, print_msg (MsgError (RuntimeError (platform_system w))) w)"
    by (simp add: fetch_closest_chromedriver_url_def)
  then show ?thesis by (simp add: download_and_update_chromedriver_def)
qed


section \<open>More facts about the example environments\<close>

lemma host_simps:
  "platform_system (host s m other u) = s"
  "script_dir (host s m other u) = ''/opt/tool''"
  "requests_get (host s m other u) (JStr json_url) = m"
  "requests_get (host s m other u) (JStr (linux_zip_url v)) = other"
  "unzip (host s m other u) = u"
  "files (host s m other u) = Map.empty"
  "trees (host s m other u) = Map.empty"
  "printed (host s m other u) = []"
  "os_path_join (host s m other u) = posixpath_join"
  using linux_zip_url_neq [of v] by (simp_all add: host_def)

lemma lookup_128:
  assumes "requests_get w (JStr json_url) = Inr (ok_response [] (Inr (manifest entries_128)))"
    and "platform_system w = ''Linux''"
  shows "fst (fetch_closest_chromedriver_url ''128'' w) =
           Inr (Some (JStr (linux_zip_url ''128.0.1''), ''128.0.1''))"
proof -
  from assms(2) have "get_platform_name (platform_system w) = Inr ''linux64''"
    by (simp add: get_platform_name_def)
  from lookup_on_shape [OF assms(1) served_simps(3) served_simps(4) served_simps(5) this shape_128]
  show ?thesis by (simp add: first_match_128)
qed

lemma url_truthy: "py_truthy (JStr (linux_zip_url v))"
  by (simp add: linux_zip_url_def)

lemma served_fields:
  "script_dir (served es body) = ''/opt/tool''"
  "requests_get (served es body) (JStr (linux_zip_url v)) = Inr (ok_response body (Inl InvalidJSONError))"
  "unzip (served es body) = archives"
  "files (served es body) = Map.empty"
  "trees (served es body) = Map.empty"
  "printed (served es body) = []"
  "content (ok_response body js) = body"
  "os_path_join (served es body) = posixpath_join"
  by (simp_all add: served_def host_simps ok_response_def)

lemma served_paths:
  "extract_dir_of (served es body) ''128.0.1'' = ''/opt/tool/chromedriver_128.0.1''"
  "zip_path_of (served es body) ''128.0.1'' = ''/opt/tool/chromedriver_128.0.1.zip''"
  by (simp_all add: paths_128 served_fields)

lemma redirected_paths:
  "extract_dir_of redirected ''128.0.1'' = ''/opt/tool/chromedriver_128.0.1''"
  "zip_path_of redirected ''128.0.1'' = ''/opt/tool/chromedriver_128.0.1.zip''"
  by (simp_all add: paths_128 redirected_def host_simps)

lemma stale_fields:
  "script_dir stale = ''/opt/tool''"
  "requests_get stale = requests_get (served entries_128 ''PK:licence'')"
  "platform_system stale = ''Linux''"
  "unzip stale = archives"
  "trees stale = [''/opt/tool/chromedriver_128.0.1'' \<mapsto> [(''chromedriver'', File ''old'')]]"
  "os_path_join stale = posixpath_join"
  by (simp_all add: stale_def served_fields served_simps)

lemma stale_paths:
  "extract_dir_of stale ''128.0.1'' = ''/opt/tool/chromedriver_128.0.1''"
  "zip_path_of stale ''128.0.1'' = ''/opt/tool/chromedriver_128.0.1.zip''"
  by (simp_all add: paths_128 stale_fields)

lemma blocked_fields:
  "script_dir blocked = ''/opt/tool''"
  "requests_get blocked = requests_get (served entries_128 ''PK:driver'')"
  "platform_system blocked = ''Linux''"
  "unzip blocked = archives"
  "trees blocked = [''/opt/tool/chromedriver_128.0.1'' \<mapsto> [(''chromedriver'', Dir [])]]"
  "os_path_join blocked = posixpath_join"
  by (simp_all add: blocked_def served_fields served_simps)

lemma blocked_paths:
  "extract_dir_of blocked ''128.0.1'' = ''/opt/tool/chromedriver_128.0.1''"
  "zip_path_of blocked ''128.0.1'' = ''/opt/tool/chromedriver_128.0.1.zip''"
  by (simp_all add: paths_128 blocked_fields)




section \<open>First match in manifest order\<close>

text \<open>
  On a manifest of the shape the program reads (every entry a version string; every entry
  whose version starts with the prefix a chromedriver download list of descriptors with a
  platform string and a URL) the lookup is \<open>first_match\<close> (lemma \<open>lookup_on_shape\<close>),
  and when no entry matches it prints that no match was found.
\<close>

lemma no_match_on_shape:
  assumes "requests_get w (JStr json_url) = Inr r"
    and "raise_for_status r = Inr ()"
    and "json_result r = Inr data"
    and "py_getitem data ''versions'' = Inr (JArr es)"
    and "get_platform_name (platform_system w) = Inr tag"
    and "list_all (entry_shape p) es"
    and "\<not> list_ex (entry_matches tag p) es"
  shows "fetch_closest_chromedriver_url p w =
           (Inr None, print_msg MsgNoMatch (print_msg (MsgPlatform tag) w))"
proof -
  from assms(7) have "first_match tag p es = None"
    by (simp add: first_match_def find_None_list_ex)
  with scan_versions_shape [OF assms(6), of tag]
  have "scan_versions tag p es = Inr None" by simp
  with assms(1-5) show ?thesis
    by (simp add: fetch_closest_chromedriver_url_def fetch_try_body_def Let_def)
qed

text \<open>
  Claim C1. The lookup should return the URL and version of the first entry in manifest
  order whose version starts with the prefix and which has a chromedriver download for the
  platform. The code departs from it on a manifest that has an entry of the prefix with
  no chromedriver list at all, as the published manifest has for the versions that list a
  browser download only: line 59 raises \<^verbatim>\<open>KeyError\<close>, the handler of line 66 ends the
  lookup, and the entry 128.0.2 that matches is never returned (first two conjuncts). An
  entry whose chromedriver list has no download for the platform is passed over as the
  claim says (third conjunct).
\<close>

theorem browser_only_entry_ends_lookup:
  "fst (fetch_closest_chromedriver_url ''128''
          (served [chrome_only_entry ''128.0.1'', driver_entry ''128.0.2''] ''PK:driver'')) = Inr None
   \<and> first_match ''linux64'' ''128'' [chrome_only_entry ''128.0.1'', driver_entry ''128.0.2''] =
       Some (JStr (linux_zip_url ''128.0.2''), ''128.0.2'')
   \<and> fst (fetch_closest_chromedriver_url ''128''
          (served [mac_only_entry ''128.0.1'', driver_entry ''128.0.2''] ''PK:driver'')) =
       Inr (Some (JStr (linux_zip_url ''128.0.2''), ''128.0.2''))"
proof -
  have "scan_versions ''linux64'' ''128'' [chrome_only_entry ''128.0.1'', driver_entry ''128.0.2''] =
      Inl (KeyError ''chromedriver'')"
    by (simp add: chrome_only_entry_def)
  then have a: "fst (fetch_closest_chromedriver_url ''128''
          (served [chrome_only_entry ''128.0.1'', driver_entry ''128.0.2''] ''PK:driver'')) = Inr None"
    by (simp add: fetch_closest_chromedriver_url_def fetch_try_body_def served_simps
        get_platform_name_def Let_def)
  have b: "first_match ''linux64'' ''128'' [chrome_only_entry ''128.0.1'', driver_entry ''128.0.2''] =
       Some (JStr (linux_zip_url ''128.0.2''), ''128.0.2'')"
    by (simp add: first_match_def chrome_only_entry_def driver_entry_def version_entry_def
      download_entry_def entry_matches_def entry_version_def chromedriver_downloads_def
      offers_def download_url_def)
  have "scan_versions ''linux64'' ''128'' [mac_only_entry ''128.0.1'', driver_entry ''128.0.2''] =
      Inr (Some (JStr (linux_zip_url ''128.0.2''), ''128.0.2''))"
    by (simp add: mac_only_entry_def driver_entry_def entry_defs)
  then have c: "fst (fetch_closest_chromedriver_url ''128''
          (served [mac_only_entry ''128.0.1'', driver_entry ''128.0.2''] ''PK:driver'')) =
       Inr (Some (JStr (linux_zip_url ''128.0.2''), ''128.0.2''))"
    by (simp add: fetch_closest_chromedriver_url_def fetch_try_body_def served_simps
        get_platform_name_def Let_def)
  from a b c show ?thesis by simp
qed

section \<open>No match\<close>

text \<open>
  Claim C7. When no entry has both a version that starts with the prefix and a
  chromedriver download for the platform, the lookup should return (None, None) and
  report that no match was found. The code departs from it on a manifest whose only entry
  of the prefix has no chromedriver list: no entry matches and (None, None) is returned,
  but the \<^verbatim>\<open>KeyError\<close> of line 59 goes to the handler of line 66, which prints an error,
  and the not-found line 63 is never printed (first three conjuncts). When the entry has a
  chromedriver list without a download for the platform, line 63 is printed as the claim
  says (last conjunct). The defect is the one of claim C1.
\<close>

theorem browser_only_entry_hides_no_match:
  "\<not> list_ex (entry_matches ''linux64'' ''128'') [chrome_only_entry ''128.0.1'']
   \<and> fetch_closest_chromedriver_url ''128'' (served [chrome_only_entry ''128.0.1''] ''PK:driver'') =
       (Inr None,
        print_msg (MsgError (KeyError ''chromedriver''))
          (print_msg (MsgPlatform ''linux64'') (served [chrome_only_entry ''128.0.1''] ''PK:driver'')))
   \<and> MsgNoMatch \<notin> set (printed (snd (fetch_closest_chromedriver_url ''128''
          (served [chrome_only_entry ''128.0.1''] ''PK:driver''))))
   \<and> fetch_closest_chromedriver_url ''128'' (served [mac_only_entry ''128.0.1''] ''PK:driver'') =
       (Inr None,
        print_msg MsgNoMatch
          (print_msg (MsgPlatform ''linux64'') (served [mac_only_entry ''128.0.1''] ''PK:driver'')))"
proof -
  have a: "\<not> list_ex (entry_matches ''linux64'' ''128'') [chrome_only_entry ''128.0.1'']"
    by (simp add: entry_matches_def entry_version_def chromedriver_downloads_def entry_defs)
  have "scan_versions ''linux64'' ''128'' [chrome_only_entry ''128.0.1''] = Inl (KeyError ''chromedriver'')"
    by (simp add: entry_defs)
  then have b: "fetch_closest_chromedriver_url ''128'' (served [chrome_only_entry ''128.0.1''] ''PK:driver'') =
       (Inr None,
        print_msg (MsgError (KeyError ''chromedriver''))
          (print_msg (MsgPlatform ''linux64'') (served [chrome_only_entry ''128.0.1''] ''PK:driver'')))"
    by (simp add: fetch_closest_chromedriver_url_def fetch_try_body_def served_simps
        get_platform_name_def Let_def)
  have c: "printed (served es body) = []" for es body
    by (simp add: served_def host_def)
  have "scan_versions ''linux64'' ''128'' [mac_only_entry ''128.0.1''] = Inr None"
    by (simp add: mac_only_entry_def entry_defs)
  then have d: "fetch_closest_chromedriver_url ''128'' (served [mac_only_entry ''128.0.1''] ''PK:driver'') =
       (Inr None,
        print_msg MsgNoMatch
          (print_msg (MsgPlatform ''linux64'') (served [mac_only_entry ''128.0.1''] ''PK:driver'')))"
    by (simp add: fetch_closest_chromedriver_url_def fetch_try_body_def served_simps
        get_platform_name_def Let_def)
  from a b c d show ?thesis by (simp add: print_msg_def)
qed

section \<open>A failed manifest request\<close>

text \<open>
  Claim C6, amended. If the manifest request raises (connection error, timeout), or its
  response has a status from 400 to 599, or the body of a response of another status is
  not JSON, the lookup catches the exception, reports it and returns (None, None), and
  the driver update prints that no driver was found and returns the empty string: no
  exception leaves either function.
\<close>

theorem manifest_failure_is_reported:
  assumes "requests_get w (JStr json_url) = Inl e
     \<or> (\<exists>r. requests_get w (JStr json_url) = Inr r
           \<and> (400 \<le> status_code r \<and> status_code r < 600 \<and> e = HTTPError
              \<or> \<not> (400 \<le> status_code r \<and> status_code r < 600) \<and> json_result r = Inl e))"
  shows "fetch_closest_chromedriver_url p w = (Inr None, print_msg (lookup_report e) w)
     \<and> download_and_update_chromedriver p w =
         (Inr [], print_msg (MsgNoSuitable p) (print_msg (lookup_report e) w))"
proof -
  from assms have "fetch_try_body p w = (Inl e, w)"
    by (auto simp: fetch_try_body_def raise_for_status_def)
  then have "fetch_closest_chromedriver_url p w = (Inr None, print_msg (lookup_report e) w)"
    by (simp add: fetch_closest_chromedriver_url_def lookup_report_def)
  then show ?thesis by (simp add: download_and_update_chromedriver_def)
qed

theorem manifest_failure_is_reported_witness:
  "download_and_update_chromedriver ''128'' unreachable =
     (Inr [], print_msg (MsgNoSuitable ''128'') (print_msg (MsgRequestError ConnectionError) unreachable))
   \<and> download_and_update_chromedriver ''128'' not_found_404 =
     (Inr [], print_msg (MsgNoSuitable ''128'') (print_msg (MsgRequestError HTTPError) not_found_404))
   \<and> download_and_update_chromedriver ''128'' garbled =
     (Inr [], print_msg (MsgNoSuitable ''128'') (print_msg (MsgRequestError InvalidJSONError) garbled))"
proof -
  have a: "requests_get unreachable (JStr json_url) = Inl ConnectionError"
    by (simp add: unreachable_def host_def)
  have b: "\<exists>r. requests_get not_found_404 (JStr json_url) = Inr r
           \<and> (400 \<le> status_code r \<and> status_code r < 600 \<and> HTTPError = HTTPError
              \<or> \<not> (400 \<le> status_code r \<and> status_code r < 600) \<and> json_result r = Inl HTTPError)"
    by (simp add: not_found_404_def host_def)
  have c: "\<exists>r. requests_get garbled (JStr json_url) = Inr r
           \<and> (400 \<le> status_code r \<and> status_code r < 600 \<and> InvalidJSONError = HTTPError
              \<or> \<not> (400 \<le> status_code r \<and> status_code r < 600) \<and> json_result r = Inl InvalidJSONError)"
    by (simp add: garbled_def host_def ok_response_def)
  from manifest_failure_is_reported [OF disjI1, OF a, of "''128''"]
    manifest_failure_is_reported [OF disjI2, OF b, of "''128''"]
    manifest_failure_is_reported [OF disjI2, OF c, of "''128''"]
  show ?thesis by (simp add: lookup_report_def)
qed

text \<open>
  Claim C6 as stated, for every status outside 200 to 299, fails at status 300:
  \<^verbatim>\<open>raise_for_status\<close> raises from 400 on only, so the body is read, the lookup returns
  the match and the driver update returns the path of the driver.
\<close>

theorem redirect_status_counterexample:
  "requests_get redirected (JStr json_url) =
     Inr \<lparr>status_code = 300, content = [], json_result = Inr (manifest entries_128)\<rparr>
   \<and> fst (fetch_closest_chromedriver_url ''128'' redirected) =
       Inr (Some (JStr (linux_zip_url ''128.0.1''), ''128.0.1''))
   \<and> fst (download_and_update_chromedriver ''128'' redirected) =
       Inr ''/opt/tool/chromedriver_128.0.1/chromedriver''"
proof -
  let ?r = "\<lparr>status_code = 300, content = [], json_result = Inr (manifest entries_128)\<rparr>"
  have g: "requests_get redirected (JStr json_url) = Inr ?r"
    by (simp add: redirected_def host_def)
  have st: "raise_for_status ?r = Inr ()" by (simp add: raise_for_status_def)
  have pf: "get_platform_name (platform_system redirected) = Inr ''linux64''"
    by (simp add: redirected_def host_def get_platform_name_def)
  have "fst (fetch_closest_chromedriver_url ''128'' redirected) =
      Inr (first_match ''linux64'' ''128'' entries_128)"
    by (rule lookup_on_shape [OF g st _ served_simps(5) pf shape_128]) simp
  then have l: "fst (fetch_closest_chromedriver_url ''128'' redirected) =
       Inr (Some (JStr (linux_zip_url ''128.0.1''), ''128.0.1''))"
    by (simp add: first_match_128)
  have sd: "os_path_join redirected = posixpath_join" "trees redirected = Map.empty"
    "unzip redirected = archives"
    by (simp_all add: redirected_def host_def)
  have jn: "\<forall>a b. b \<noteq> [] \<longrightarrow> os_path_join redirected a b \<noteq> []"
    by (simp add: redirected_def host_simps posixpath_join_nonempty)
  have dl: "requests_get redirected (JStr (linux_zip_url ''128.0.1'')) =
      Inr (ok_response ''PK:driver'' (Inl InvalidJSONError))"
    using linux_zip_url_neq by (simp add: redirected_def host_def)
  have "fst (download_and_update_chromedriver ''128'' redirected) =
       Inr (os_path_join redirected ''/opt/tool/chromedriver_128.0.1'' ''chromedriver'')"
    using run_success [OF l _ dl served_simps(3) _ _ _ jn,
        where ms = "[([], ''LICENSE.chromedriver'', ''licence''), ([], ''chromedriver'', ''binary'')]"
          and t = "[(''LICENSE.chromedriver'', File ''licence''), (''chromedriver'', File ''binary'')]"
          and root = "''/opt/tool/chromedriver_128.0.1''" and f = "''chromedriver''"]
    by (simp add: sd redirected_paths archives_def ok_response_def linux_zip_url_def)
  then show ?thesis using g l by (simp add: sd posixpath_join_def)
qed

section \<open>Errors and the top-level call\<close>

lemma lookup_exception_reported:
  "fetch_try_body p w = (Inl e, w') \<Longrightarrow>
   fetch_closest_chromedriver_url p w = (Inr None, print_msg (lookup_report e) w')"
  by (simp add: fetch_closest_chromedriver_url_def lookup_report_def)

lemma download_exception_reported:
  assumes "fetch_closest_chromedriver_url p w = (Inr (Some (url, v)), w0)"
    and "py_truthy url"
    and "download_try_body url v (zip_path_of w0 v) (extract_dir_of w0 v)
           (print_msg (MsgDownloading v) w0) = (Inl e, w2)"
  shows "download_and_update_chromedriver p w = (Inr [], print_msg (download_report e) w2)"
  using assms
  by (simp add: download_and_update_chromedriver_def Let_def zip_path_of_def extract_dir_of_def
      download_report_def)

lemma download_error_gives_empty:
  assumes "fst (fetch_closest_chromedriver_url p w) = Inr (Some (url, v))"
    and "py_truthy url"
    and "requests_get w url = Inl e
       \<or> (\<exists>r. requests_get w url = Inr r
            \<and> (raise_for_status r = Inl e
               \<or> raise_for_status r = Inr ()
                 \<and> (unzip w (content r) = Inl e
                    \<or> (\<exists>ms t. unzip w (content r) = Inr ms
                          \<and> extract_members ms (trees w (extract_dir_of w v)) = (Inl e, t)))))"
  shows "fst (download_and_update_chromedriver p w) = Inr []
       \<and> last (printed (snd (download_and_update_chromedriver p w))) = download_report e"
proof -
  let ?zp = "zip_path_of w v" and ?ed = "extract_dir_of w v"
  from assms(1,2) obtain pm where d: "download_and_update_chromedriver p w =
       finish (download_try_body url v ?zp ?ed (announced pm v w))"
    by (rule dau_download)
  show ?thesis
    by (cases rule: dtb_cases [where w = "announced pm v w" and url = url and v = v
        and zp = ?zp and ed = ?ed]) (use assms(3) d in auto)
qed

lemma no_lookup_gives_empty:
  assumes "fst (fetch_closest_chromedriver_url p w) = Inr None"
  shows "fst (download_and_update_chromedriver p w) = Inr []
       \<and> last (printed (snd (download_and_update_chromedriver p w))) = MsgNoSuitable p"
  using dau_no_download [of p w] assms by simp

text \<open>
  Claim C2, amended. No exception leaves the top-level driver update, the
  platform-detection error included: \<^verbatim>\<open>get_platform_name\<close> is called inside the
  \<^verbatim>\<open>try\<close> of the lookup (line 54), so on a host that is none of the three recognised
  systems the lookup catches the error, returns (None, None), and the driver update
  returns the empty string; when the manifest was fetched and parsed the report is that
  of the \<^verbatim>\<open>RuntimeError\<close>. Every error is turned into a report and the empty string:
  \<^item> an exception \<open>e\<close> raised anywhere in the \<^verbatim>\<open>try\<close> of the lookup is answered by
    (None, None) after the report of \<open>e\<close> is printed, and nothing else is changed;
  \<^item> a lookup that gives (None, None) makes the driver update return the empty string
    after the report that no suitable driver was found;
  \<^item> an exception \<open>e\<close> raised anywhere in the \<^verbatim>\<open>try\<close> of the download is answered by
    the empty string after the report of \<open>e\<close> is printed, and nothing else is changed;
  \<^item> in terms of the environment: a failed request, an error status, a body that is no
    zip archive and a failed extraction each give the empty string, the report of that
    error being the last line printed;
  \<^item> and every run that returns the empty string ends with a failure report.
\<close>

theorem every_error_is_caught:
  "(\<exists>s. fst (download_and_update_chromedriver p w) = Inr s)
   \<and> (platform_system w \<notin> {''Windows'', ''Darwin'', ''Linux''} \<longrightarrow>
        fst (fetch_closest_chromedriver_url p w) = Inr None
        \<and> fst (download_and_update_chromedriver p w) = Inr [])
   \<and> (platform_system w \<notin> {''Windows'', ''Darwin'', ''Linux''}
        \<and> (\<exists>r data. requests_get w (JStr json_url) = Inr r \<and> raise_for_status r = Inr ()
               \<and> json_result r = Inr data) \<longrightarrow>
        download_and_update_chromedriver p w =
          (Inr [], print_msg (MsgNoSuitable p)
                     (print_msg (MsgError (RuntimeError (platform_system w))) w)))
   \<and> (fst (download_and_update_chromedriver p w) = Inr [] \<longrightarrow>
        printed (snd (download_and_update_chromedriver p w)) \<noteq> []
        \<and> is_failure_report (last (printed (snd (download_and_update_chromedriver p w)))))
   \<and> (\<forall>e w'. fetch_try_body p w = (Inl e, w') \<longrightarrow>
        fetch_closest_chromedriver_url p w = (Inr None, print_msg (lookup_report e) w'))
   \<and> (fst (fetch_closest_chromedriver_url p w) = Inr None \<longrightarrow>
        fst (download_and_update_chromedriver p w) = Inr []
        \<and> last (printed (snd (download_and_update_chromedriver p w))) = MsgNoSuitable p)
   \<and> (\<forall>url v w0 e w2.
        fetch_closest_chromedriver_url p w = (Inr (Some (url, v)), w0) \<and> py_truthy url
        \<and> download_try_body url v (zip_path_of w0 v) (extract_dir_of w0 v)
             (print_msg (MsgDownloading v) w0) = (Inl e, w2) \<longrightarrow>
        download_and_update_chromedriver p w = (Inr [], print_msg (download_report e) w2))
   \<and> (\<forall>url v e.
        fst (fetch_closest_chromedriver_url p w) = Inr (Some (url, v)) \<and> py_truthy url
        \<and> (requests_get w url = Inl e
           \<or> (\<exists>r. requests_get w url = Inr r
                \<and> (raise_for_status r = Inl e
                   \<or> raise_for_status r = Inr ()
                     \<and> (unzip w (content r) = Inl e
                        \<or> (\<exists>ms t. unzip w (content r) = Inr ms
                              \<and> extract_members ms (trees w (extract_dir_of w v)) = (Inl e, t)))))) \<longrightarrow>
        fst (download_and_update_chromedriver p w) = Inr []
        \<and> last (printed (snd (download_and_update_chromedriver p w))) = download_report e)"
proof -
  have b: "fst (fetch_closest_chromedriver_url p w) = Inr None
        \<and> fst (download_and_update_chromedriver p w) = Inr []"
    if "platform_system w \<notin> {''Windows'', ''Darwin'', ''Linux''}"
  proof -
    from unsupported_lookup [OF that, of p] obtain e where
      "fetch_closest_chromedriver_url p w = (Inr None, print_msg (lookup_report e) w)" ..
    then show ?thesis by (simp add: download_and_update_chromedriver_def)
  qed
  have c: "platform_system w \<notin> {''Windows'', ''Darwin'', ''Linux''}
        \<and> (\<exists>r data. requests_get w (JStr json_url) = Inr r \<and> raise_for_status r = Inr ()
               \<and> json_result r = Inr data) \<longrightarrow>
        download_and_update_chromedriver p w =
          (Inr [], print_msg (MsgNoSuitable p)
                     (print_msg (MsgError (RuntimeError (platform_system w))) w))"
    using unsupported_run [of w _ _ p] by blast
  have f: "\<forall>url v w0 e w2.
        fetch_closest_chromedriver_url p w = (Inr (Some (url, v)), w0) \<and> py_truthy url
        \<and> download_try_body url v (zip_path_of w0 v) (extract_dir_of w0 v)
             (print_msg (MsgDownloading v) w0) = (Inl e, w2) \<longrightarrow>
        download_and_update_chromedriver p w = (Inr [], print_msg (download_report e) w2)"
    using download_exception_reported [of p w] by blast
  have g: "\<forall>url v e.
        fst (fetch_closest_chromedriver_url p w) = Inr (Some (url, v)) \<and> py_truthy url
        \<and> (requests_get w url = Inl e
           \<or> (\<exists>r. requests_get w url = Inr r
                \<and> (raise_for_status r = Inl e
                   \<or> raise_for_status r = Inr ()
                     \<and> (unzip w (content r) = Inl e
                        \<or> (\<exists>ms t. unzip w (content r) = Inr ms
                              \<and> extract_members ms (trees w (extract_dir_of w v)) = (Inl e, t)))))) \<longrightarrow>
        fst (download_and_update_chromedriver p w) = Inr []
        \<and> last (printed (snd (download_and_update_chromedriver p w))) = download_report e"
    using download_error_gives_empty [of p w] by blast
  show ?thesis
    using dau_returns [of p w] b c dau_empty_reported [of p w]
      lookup_exception_reported [of p w] no_lookup_gives_empty [of p w] f g
    by (intro conjI allI impI) blast+
qed

text \<open>
  The amended claim C2 on a SunOS host whose manifest is served: the lookup catches the
  \<^verbatim>\<open>RuntimeError\<close> and the driver update returns the empty string after two reports;
  and on a Linux host whose download is a web page: the archive is refused and the
  driver update returns the empty string after the report of the bad archive.
\<close>

theorem every_error_is_caught_witness:
  "platform_system sunos \<notin> {''Windows'', ''Darwin'', ''Linux''}
   \<and> download_and_update_chromedriver ''128'' sunos =
       (Inr [], print_msg (MsgNoSuitable ''128'') (print_msg (MsgError (RuntimeError ''SunOS'')) sunos))
   \<and> is_failure_report (last (printed (snd (download_and_update_chromedriver ''128'' sunos))))
   \<and> unzip (served entries_128 ''<html>'') ''<html>'' = Inl BadZipFile
   \<and> fst (download_and_update_chromedriver ''128'' (served entries_128 ''<html>'')) = Inr []
   \<and> last (printed (snd (download_and_update_chromedriver ''128'' (served entries_128 ''<html>''))))
       = MsgBadZip"
proof -
  have a: "platform_system sunos \<notin> {''Windows'', ''Darwin'', ''Linux''}"
    and a': "platform_system sunos = ''SunOS''"
    by (simp_all add: sunos_def host_simps)
  have b: "\<exists>r data. requests_get sunos (JStr json_url) = Inr r \<and> raise_for_status r = Inr ()
               \<and> json_result r = Inr data"
    by (simp add: sunos_def host_simps served_simps)
  note t = every_error_is_caught [of "''128''" sunos]
  from t have "platform_system sunos \<notin> {''Windows'', ''Darwin'', ''Linux''}
        \<and> (\<exists>r data. requests_get sunos (JStr json_url) = Inr r \<and> raise_for_status r = Inr ()
               \<and> json_result r = Inr data) \<longrightarrow>
        download_and_update_chromedriver ''128'' sunos =
          (Inr [], print_msg (MsgNoSuitable ''128'')
                     (print_msg (MsgError (RuntimeError (platform_system sunos))) sunos))"
    by (elim conjE)
  with a b a' have c: "download_and_update_chromedriver ''128'' sunos =
       (Inr [], print_msg (MsgNoSuitable ''128'') (print_msg (MsgError (RuntimeError ''SunOS'')) sunos))"
    by simp
  let ?w = "served entries_128 ''<html>''"
  have l: "fst (fetch_closest_chromedriver_url ''128'' ?w) =
             Inr (Some (JStr (linux_zip_url ''128.0.1''), ''128.0.1''))"
    by (rule lookup_128 [OF served_simps(1) served_simps(2)])
  have u: "unzip ?w ''<html>'' = Inl BadZipFile"
    by (simp add: served_fields archives_def)
  from every_error_is_caught [of "''128''" ?w]
  have "\<forall>url v e.
        fst (fetch_closest_chromedriver_url ''128'' ?w) = Inr (Some (url, v)) \<and> py_truthy url
        \<and> (requests_get ?w url = Inl e
           \<or> (\<exists>r. requests_get ?w url = Inr r
                \<and> (raise_for_status r = Inl e
                   \<or> raise_for_status r = Inr ()
                     \<and> (unzip ?w (content r) = Inl e
                        \<or> (\<exists>ms t. unzip ?w (content r) = Inr ms
                              \<and> extract_members ms (trees ?w (extract_dir_of ?w v)) = (Inl e, t)))))) \<longrightarrow>
        fst (download_and_update_chromedriver ''128'' ?w) = Inr []
        \<and> last (printed (snd (download_and_update_chromedriver ''128'' ?w))) = download_report e"
    by (elim conjE)
  from this [rule_format, of "JStr (linux_zip_url ''128.0.1'')" "''128.0.1''" BadZipFile]
    l url_truthy [of "''128.0.1''"] u
  have d: "fst (download_and_update_chromedriver ''128'' ?w) = Inr []
        \<and> last (printed (snd (download_and_update_chromedriver ''128'' ?w))) = download_report BadZipFile"
    by (simp add: served_fields served_simps)
  from a c u d show ?thesis by (simp add: download_report_def)
qed

text \<open>
  Claim C2 as stated, that the platform-detection error is raised past the top-level
  call, fails on a FreeBSD host: the error is caught by the handler of line 66 and the
  call returns the empty string.
\<close>

theorem platform_error_is_caught_counterexample:
  "get_platform_name (platform_system bsd) = Inl (RuntimeError ''FreeBSD'')
   \<and> download_and_update_chromedriver ''128'' bsd =
       (Inr [], print_msg (MsgNoSuitable ''128'') (print_msg (MsgError (RuntimeError ''FreeBSD'')) bsd))"
proof -
  have a: "platform_system bsd \<notin> {''Windows'', ''Darwin'', ''Linux''}"
    and a': "platform_system bsd = ''FreeBSD''"
    by (simp_all add: bsd_def host_simps)
  have "download_and_update_chromedriver ''128'' bsd =
     (Inr [], print_msg (MsgNoSuitable ''128'') (print_msg (MsgError (RuntimeError (platform_system bsd))) bsd))"
    by (rule unsupported_run [OF a _ served_simps(3) served_simps(4)])
      (simp add: bsd_def host_simps)
  with a' show ?thesis by (simp add: get_platform_name_def)
qed

section \<open>The success path\<close>

lemma posixpath_join_ends: "\<exists>pre. posixpath_join a b = pre @ b"
proof (cases "startswith b ''/''")
  case True
  then have "posixpath_join a b = [] @ b" by (simp add: posixpath_join_def)
  then show ?thesis by (rule exI)
next
  case False
  then show ?thesis by (rule posixpath_join_suffix)
qed



lemma posix_join_ends: "\<forall>a b. \<exists>pre. posixpath_join a b = pre @ b"
  by (simp add: posixpath_join_ends)



section \<open>No driver file\<close>

text \<open>
  Claim C4, amended. For every archive that extracts successfully and contains no file
  whose name starts with \<^verbatim>\<open>chromedriver\<close>, into an extraction directory that held no such
  file before, the driver update reports that no driver file was found, returns the empty
  string, and the downloaded zip file stays on disk with the bytes downloaded.
\<close>

theorem missing_driver_keeps_archive:
  assumes "fst (fetch_closest_chromedriver_url p w) = Inr (Some (url, v))"
    and "py_truthy url"
    and "requests_get w url = Inr r"
    and "raise_for_status r = Inr ()"
    and "unzip w (content r) = Inr ms"
    and "extract_members ms (trees w (extract_dir_of w v)) = (Inr (), t)"
    and "\<forall>m \<in> set ms. \<not> startswith (fst (snd m)) ''chromedriver''"
    and "\<forall>name \<in> set (tree_files (the_entries (trees w (extract_dir_of w v)))).
           \<not> startswith name ''chromedriver''"
  shows "fst (download_and_update_chromedriver p w) = Inr []
       \<and> files (snd (download_and_update_chromedriver p w)) (zip_path_of w v) =
           Some (content r)
       \<and> last (printed (snd (download_and_update_chromedriver p w))) = MsgDriverNotFound"
proof -
  let ?zp = "zip_path_of w v" and ?ed = "extract_dir_of w v"
  from assms(1,2) obtain pm where d: "download_and_update_chromedriver p w =
       finish (download_try_body url v ?zp ?ed (announced pm v w))"
    by (rule dau_download)
  from extract_members_files [OF assms(6)] assms(7,8)
  have "\<forall>name \<in> set (tree_files (the_entries t)). \<not> startswith name ''chromedriver''"
    by blast
  then have "scan_walk (os_path_join (announced pm v w)) (walk_tree (os_path_join (announced pm v w)) ?ed t) None = None" by (rule scan_walk_none)
  then have "\<not> str_truthy (scan_walk (os_path_join (announced pm v w)) (walk_tree (os_path_join (announced pm v w)) ?ed t) None)" by simp
  with assms(3-6) have "download_try_body url v ?zp ?ed (announced pm v w) =
     (Inr [], print_msg MsgDriverNotFound
        ((written v ?zp r (announced pm v w))\<lparr>trees := (trees (announced pm v w))(?ed := t)\<rparr>))"
    by (intro dtb_not_found) simp_all
  with d show ?thesis by simp
qed

theorem missing_driver_keeps_archive_witness:
  "fst (download_and_update_chromedriver ''128'' (served entries_128 ''PK:licence'')) = Inr []
   \<and> files (snd (download_and_update_chromedriver ''128'' (served entries_128 ''PK:licence'')))
       ''/opt/tool/chromedriver_128.0.1.zip'' = Some ''PK:licence''
   \<and> last (printed (snd (download_and_update_chromedriver ''128'' (served entries_128 ''PK:licence'')))) =
       MsgDriverNotFound"
proof -
  let ?w = "served entries_128 ''PK:licence''"
  have l: "fst (fetch_closest_chromedriver_url ''128'' ?w) =
      Inr (Some (JStr (linux_zip_url ''128.0.1''), ''128.0.1''))"
    by (rule lookup_128) (simp_all add: served_simps)
  have uz: "unzip ?w (content (ok_response ''PK:licence'' (Inl InvalidJSONError))) =
      Inr [([], ''LICENSE.chromedriver'', ''licence'')]"
    by (simp add: served_fields archives_def)
  have ex: "extract_members [([], ''LICENSE.chromedriver'', ''licence'')]
       (trees ?w (extract_dir_of ?w ''128.0.1'')) =
      (Inr (), Some [(''LICENSE.chromedriver'', File ''licence'')])"
    by (simp add: served_fields)
  have nm: "\<forall>m \<in> set [([] :: string list, ''LICENSE.chromedriver'', ''licence'')].
      \<not> startswith (fst (snd m)) ''chromedriver''"
    by simp
  have ns: "\<forall>name \<in> set (tree_files (the_entries (trees ?w (extract_dir_of ?w ''128.0.1'')))).
      \<not> startswith name ''chromedriver''"
    by (simp add: served_fields the_entries_def)
  from missing_driver_keeps_archive [OF l url_truthy served_fields(2) served_simps(3) uz ex nm ns]
  show ?thesis by (simp add: served_fields served_paths)
qed

text \<open>
  Claim C4 as stated, for every such archive, fails when the extraction directory of the
  version already holds a driver (the directory of an earlier run is kept): the walk of
  line 94 finds that file, the path is returned and the zip file is removed.
\<close>

theorem stale_directory_counterexample:
  "unzip stale ''PK:licence'' = Inr [([], ''LICENSE.chromedriver'', ''licence'')]
   \<and> fst (download_and_update_chromedriver ''128'' stale) =
       Inr ''/opt/tool/chromedriver_128.0.1/chromedriver''
   \<and> files (snd (download_and_update_chromedriver ''128'' stale))
       ''/opt/tool/chromedriver_128.0.1.zip'' = None"
proof -
  have l: "fst (fetch_closest_chromedriver_url ''128'' stale) =
      Inr (Some (JStr (linux_zip_url ''128.0.1''), ''128.0.1''))"
    by (rule lookup_128) (simp_all add: stale_fields served_simps)
  have g: "requests_get stale (JStr (linux_zip_url ''128.0.1'')) =
      Inr (ok_response ''PK:licence'' (Inl InvalidJSONError))"
    by (simp add: stale_fields served_fields)
  have uz: "unzip stale (content (ok_response ''PK:licence'' (Inl InvalidJSONError))) =
      Inr [([], ''LICENSE.chromedriver'', ''licence'')]"
    by (simp add: stale_fields served_fields archives_def)
  have ex: "extract_members [([], ''LICENSE.chromedriver'', ''licence'')]
       (trees stale (extract_dir_of stale ''128.0.1'')) =
      (Inr (), Some [(''chromedriver'', File ''old''), (''LICENSE.chromedriver'', File ''licence'')])"
    by (simp add: stale_fields stale_paths)
  have fd: "find (\<lambda>(root, f). startswith f ''chromedriver'')
           (walk_files (walk (os_path_join stale) (extract_dir_of stale ''128.0.1'')
              [(''chromedriver'', File ''old''), (''LICENSE.chromedriver'', File ''licence'')])) =
      Some (''/opt/tool/chromedriver_128.0.1'', ''chromedriver'')"
    by (simp add: stale_fields stale_paths)
  have jn: "\<forall>a b. b \<noteq> [] \<longrightarrow> os_path_join stale a b \<noteq> []"
    by (simp add: stale_fields posixpath_join_nonempty)
  from run_success [OF l url_truthy g served_simps(3) uz ex fd jn] uz
  show ?thesis
    by (simp add: stale_fields served_fields stale_paths posixpath_join_def)
qed

section \<open>Paths\<close>


















section \<open>The archive after a failure\<close>

text \<open>
  Claim C10. When the archive download succeeds but the extraction fails, with the error
  of a corrupt archive or any other, the driver update reports the error and returns the
  empty string; and whenever it returns the empty string after a successful download, the
  zip file is on disk with the downloaded bytes: no failing branch removes it.
\<close>

theorem archive_kept_on_failure:
  assumes "fst (fetch_closest_chromedriver_url p w) = Inr (Some (url, v))"
    and "py_truthy url"
    and "requests_get w url = Inr r"
    and "raise_for_status r = Inr ()"
  shows "(unzip w (content r) = Inl e
          \<or> (\<exists>ms t. unzip w (content r) = Inr ms
                \<and> extract_members ms (trees w (extract_dir_of w v)) = (Inl e, t)) \<longrightarrow>
            fst (download_and_update_chromedriver p w) = Inr []
            \<and> last (printed (snd (download_and_update_chromedriver p w))) = download_report e)
       \<and> (fst (download_and_update_chromedriver p w) = Inr [] \<longrightarrow>
            files (snd (download_and_update_chromedriver p w)) (zip_path_of w v) =
              Some (content r))"
proof -
  let ?zp = "zip_path_of w v" and ?ed = "extract_dir_of w v"
  from assms(1,2) obtain pm where d: "download_and_update_chromedriver p w =
       finish (download_try_body url v ?zp ?ed (announced pm v w))"
    by (rule dau_download)
  show ?thesis
  proof (cases rule: dtb_cases [where w = "announced pm v w" and url = url and v = v
        and zp = ?zp and ed = ?ed])
    case found
    with assms(3,4) d str_truthy_the_path show ?thesis by auto
  qed (use assms(3,4) d in auto)
qed

theorem archive_kept_on_failure_witness:
  "fst (download_and_update_chromedriver ''128'' (served entries_128 ''not a zip'')) = Inr []
   \<and> last (printed (snd (download_and_update_chromedriver ''128'' (served entries_128 ''not a zip'')))) =
       MsgBadZip
   \<and> files (snd (download_and_update_chromedriver ''128'' (served entries_128 ''not a zip'')))
       ''/opt/tool/chromedriver_128.0.1.zip'' = Some ''not a zip''
   \<and> fst (download_and_update_chromedriver ''128'' blocked) = Inr []
   \<and> last (printed (snd (download_and_update_chromedriver ''128'' blocked))) = MsgError OSError
   \<and> files (snd (download_and_update_chromedriver ''128'' blocked))
       ''/opt/tool/chromedriver_128.0.1.zip'' = Some ''PK:driver''"
proof -
  let ?w = "served entries_128 ''not a zip''"
  have l: "fst (fetch_closest_chromedriver_url ''128'' ?w) =
      Inr (Some (JStr (linux_zip_url ''128.0.1''), ''128.0.1''))"
    by (rule lookup_128) (simp_all add: served_simps)
  have uz: "unzip ?w (content (ok_response ''not a zip'' (Inl InvalidJSONError))) = Inl BadZipFile"
    by (simp add: served_fields archives_def)
  have l': "fst (fetch_closest_chromedriver_url ''128'' blocked) =
      Inr (Some (JStr (linux_zip_url ''128.0.1''), ''128.0.1''))"
    by (rule lookup_128) (simp_all add: blocked_fields served_simps)
  have g': "requests_get blocked (JStr (linux_zip_url ''128.0.1'')) =
      Inr (ok_response ''PK:driver'' (Inl InvalidJSONError))"
    by (simp add: blocked_fields served_fields)
  have ex': "\<exists>ms t. unzip blocked (content (ok_response ''PK:driver'' (Inl InvalidJSONError))) = Inr ms
      \<and> extract_members ms (trees blocked (extract_dir_of blocked ''128.0.1'')) =
          (Inl OSError, t)"
    by (simp add: blocked_fields served_fields archives_def blocked_paths)
  from archive_kept_on_failure [OF l url_truthy served_fields(2) served_simps(3), of BadZipFile]
    archive_kept_on_failure [OF l' url_truthy g' served_simps(3), of OSError] uz ex'
  show ?thesis
    by (simp add: served_fields blocked_fields served_paths blocked_paths download_report_def)
qed

end
